theory Spec2Isabelle
  imports Main "HOL-Library.Sublist" "HOL-Library.Multiset"
begin

section \<open>Strings as the program sees them\<close>

text \<open>
  The program is TypeScript; its strings are sequences of code units. A \<^typ>\<open>char\<close>
  stands for a code unit below 256, which covers every character the program's
  patterns name. \<open>isSpace\<close> is what the pattern class \<^verbatim>\<open>\s\<close> and
  \<^verbatim>\<open>String.prototype.trim\<close> remove in that range (tab, line feed, vertical tab,
  form feed, carriage return, space, no-break space); \<open>isLineTerminator\<close> is what the
  pattern \<^verbatim>\<open>.\<close> refuses (line feed and carriage return).
\<close>

definition isSpace :: "char \<Rightarrow> bool" where
  "isSpace c = (c = CHR 0x09 \<or> c = CHR 0x0A \<or> c = CHR 0x0B \<or> c = CHR 0x0C
                \<or> c = CHR 0x0D \<or> c = CHR 0x20 \<or> c = CHR 0xA0)"

definition isLineTerminator :: "char \<Rightarrow> bool" where
  "isLineTerminator c = (c = CHR 0x0A \<or> c = CHR 0x0D)"

definition isDot :: "char \<Rightarrow> bool" where
  "isDot c = (\<not> isLineTerminator c)"

text \<open>\<^verbatim>\<open>trim(str)\<close> of utils.ts: \<^verbatim>\<open>str.trim()\<close>.\<close>

definition trim :: "string \<Rightarrow> string" where
  "trim str = rev (dropWhile isSpace (rev (dropWhile isSpace str)))"

text \<open>
  \<^verbatim>\<open>str.split(c)\<close> for a one-character separator: never the empty list.
  \<open>consHead x parts\<close> puts \<open>x\<close> in front of the first part.
\<close>

fun consHead :: "char \<Rightarrow> string list \<Rightarrow> string list" where
  "consHead x [] = [[x]]"
| "consHead x (y # ys) = (x # y) # ys"

fun split_on :: "char \<Rightarrow> string \<Rightarrow> string list" where
  "split_on c [] = [[]]"
| "split_on c (x # xs) =
     (if x = c then [] # split_on c xs
      else consHead x (split_on c xs))"

text \<open>\<^verbatim>\<open>parts.join(sep)\<close>.\<close>

fun join :: "string \<Rightarrow> string list \<Rightarrow> string" where
  "join sep [] = []"
| "join sep [p] = p"
| "join sep (p # q # ps) = p @ sep @ join sep (q # ps)"

text \<open>
  \<^verbatim>\<open>s.lastIndexOf(pat)\<close>: the greatest index at which \<open>pat\<close> occurs in \<open>s\<close>;
  \<open>None\<close> is the program's \<open>-1\<close>. An occurrence later in the string wins over
  one that starts here.
\<close>

fun laterOrHere :: "nat option \<Rightarrow> bool \<Rightarrow> nat option" where
  "laterOrHere (Some i) here = Some (Suc i)"
| "laterOrHere None here = (if here then Some 0 else None)"

fun lastIndexOf :: "string \<Rightarrow> string \<Rightarrow> nat option" where
  "lastIndexOf [] pat = (if pat = [] then Some 0 else None)"
| "lastIndexOf (x # xs) pat = laterOrHere (lastIndexOf xs pat) (prefix pat (x # xs))"

text \<open>
  Reading an array at an index: \<open>None\<close> is \<^verbatim>\<open>undefined\<close>. \<open>orEmpty\<close> is
  \<^verbatim>\<open>x || ''\<close> on a string or \<^verbatim>\<open>undefined\<close>; \<open>truthy\<close> is the test
  \<^verbatim>\<open>x ? .. : ..\<close> on such a value.
\<close>

definition jsIndex :: "'a list \<Rightarrow> nat \<Rightarrow> 'a option" where
  "jsIndex xs i = (if i < length xs then Some (xs ! i) else None)"

fun orEmpty :: "string option \<Rightarrow> string" where
  "orEmpty None = []"
| "orEmpty (Some s) = s"

fun truthy :: "string option \<Rightarrow> bool" where
  "truthy None = False"
| "truthy (Some s) = (s \<noteq> [])"

text \<open>\<^verbatim>\<open>xs.slice(a, b)\<close> for indices \<open>0 \<le> a \<le> b\<close>.\<close>

definition slice :: "'a list \<Rightarrow> nat \<Rightarrow> nat \<Rightarrow> 'a list" where
  "slice xs a b = take (b - a) (drop a xs)"

section \<open>The file system\<close>

text \<open>
  The files on disk: a map from a path to the text of the file there.
  \<^verbatim>\<open>fileExists(path)\<close> of utils.ts answers whether the map is defined at the path.
\<close>

type_synonym fs = "string \<rightharpoonup> string"

definition fileExists :: "fs \<Rightarrow> string \<Rightarrow> bool" where
  "fileExists disk path = (disk path \<noteq> None)"

section \<open>Data model (types.ts)\<close>

datatype reason = MissingFile | StepMismatch | StepCountMismatch

record mismatchedStep =
  expected :: string
  actual :: string
  index :: nat

record StepVerificationResult =
  passed :: bool
  reason :: "reason option"
  expectedSteps :: "string list"
  actualSteps :: "string list"
  missingSteps :: "string list option"
  extraSteps :: "string list option"
  mismatchedSteps :: "mismatchedStep list option"

record Scenario =
  name :: string
  levels :: "string list"
  steps :: "string list"

section \<open>Step extractor (specguard.ts, findStepsInTest)\<close>

text \<open>
  The marker pattern \<^verbatim>\<open>/^\s*(#|\/\/)\s*step\("(.+)"\)/\<close> on one line. The
  greedy group \<^verbatim>\<open>(.+)\<close> takes at least one character other than a line terminator
  and as many as leave a \<^verbatim>\<open>")\<close> right after it: the text up to the last
  \<^verbatim>\<open>")\<close> that starts at index 1 or later of the run of such characters.
  \<open>stepRegex line\<close> is the second group of the match, \<open>None\<close> when the line
  does not match.
\<close>

definition stripLeader :: "string \<Rightarrow> string option" where
  "stripLeader s =
     (if prefix ''#'' s then Some (drop 1 s)
      else if prefix ''//'' s then Some (drop 2 s)
      else None)"

definition greedyGroup :: "string \<Rightarrow> string option" where
  "greedyGroup s =
     (case takeWhile isDot s of
        [] \<Rightarrow> None
      | x # xs \<Rightarrow>
          (case lastIndexOf xs ''\")'' of
             None \<Rightarrow> None
           | Some k \<Rightarrow> Some (x # take k xs)))"

definition stepRegex :: "string \<Rightarrow> string option" where
  "stepRegex line =
     (case stripLeader (dropWhile isSpace line) of
        None \<Rightarrow> None
      | Some afterLeader \<Rightarrow>
          (let afterSpace = dropWhile isSpace afterLeader in
           if prefix ''step(\"'' afterSpace then greedyGroup (drop 6 afterSpace)
           else None))"

text \<open>The loop over the lines of the file: a matching line pushes its group.\<close>

fun findStepsLoop :: "string list \<Rightarrow> string list \<Rightarrow> string list" where
  "findStepsLoop [] acc = acc"
| "findStepsLoop (line # rest) acc =
     (case stepRegex line of
        Some g \<Rightarrow> findStepsLoop rest (acc @ [orEmpty (Some g)])
      | None \<Rightarrow> findStepsLoop rest acc)"

definition findStepsInTest :: "fs \<Rightarrow> string \<Rightarrow> string list" where
  "findStepsInTest disk filePath =
     (case disk filePath of
        None \<Rightarrow> []
      | Some content \<Rightarrow> findStepsLoop (split_on CHR 0x0A content) [])"

section \<open>Verifier (specguard.ts, verifySteps)\<close>

text \<open>The three index loops of \<^verbatim>\<open>verifySteps\<close>, each with its accumulator.\<close>

function missingLoop :: "string list \<Rightarrow> string list \<Rightarrow> nat \<Rightarrow> string list \<Rightarrow> string list" where
  "missingLoop normalizedExpected normalizedActual i acc =
     (if i < length normalizedExpected then
        missingLoop normalizedExpected normalizedActual (Suc i)
          (if i \<ge> length normalizedActual
           then acc @ [orEmpty (jsIndex normalizedExpected i)] else acc)
      else acc)"
  by pat_completeness auto
termination
  by (relation "measure (\<lambda>(ne, na, i, acc). length ne - i)") auto

declare missingLoop.simps [simp del]

function extraLoop :: "string list \<Rightarrow> nat \<Rightarrow> string list \<Rightarrow> string list" where
  "extraLoop normalizedActual i acc =
     (if i < length normalizedActual then
        extraLoop normalizedActual (Suc i) (acc @ [orEmpty (jsIndex normalizedActual i)])
      else acc)"
  by pat_completeness auto
termination
  by (relation "measure (\<lambda>(na, i, acc). length na - i)") auto

declare extraLoop.simps [simp del]

function mismatchLoop ::
  "string list \<Rightarrow> string list \<Rightarrow> nat \<Rightarrow> mismatchedStep list \<Rightarrow> mismatchedStep list" where
  "mismatchLoop normalizedExpected normalizedActual i acc =
     (if i < length normalizedExpected then
        (let e = jsIndex normalizedExpected i; a = jsIndex normalizedActual i in
         mismatchLoop normalizedExpected normalizedActual (Suc i)
           (if e \<noteq> a
            then acc @ [\<lparr>expected = orEmpty e, actual = orEmpty a, index = i\<rparr>]
            else acc))
      else acc)"
  by pat_completeness auto
termination
  by (relation "measure (\<lambda>(ne, na, i, acc). length ne - i)") auto

declare mismatchLoop.simps [simp del]

text \<open>
  \<open>compareSteps\<close> is the body of \<^verbatim>\<open>verifySteps\<close> from the normalisation on,
  with the steps found in the file as its second argument.
\<close>

definition compareSteps :: "string list \<Rightarrow> string list \<Rightarrow> StepVerificationResult" where
  "compareSteps expectedSteps' actualSteps' =
     (let normalizedExpected = map trim expectedSteps';
          normalizedActual = map trim actualSteps'
      in
      if length normalizedExpected \<noteq> length normalizedActual then
        \<lparr>passed = False, reason = Some StepCountMismatch,
         expectedSteps = expectedSteps', actualSteps = actualSteps',
         missingSteps = Some (missingLoop normalizedExpected normalizedActual 0 []),
         extraSteps = Some (extraLoop normalizedActual (length normalizedExpected) []),
         mismatchedSteps = None\<rparr>
      else
        (let mismatched = mismatchLoop normalizedExpected normalizedActual 0 [] in
         if length mismatched > 0 then
           \<lparr>passed = False, reason = Some StepMismatch,
            expectedSteps = expectedSteps', actualSteps = actualSteps',
            missingSteps = None, extraSteps = None,
            mismatchedSteps = Some mismatched\<rparr>
         else
           \<lparr>passed = True, reason = None,
            expectedSteps = expectedSteps', actualSteps = actualSteps',
            missingSteps = None, extraSteps = None, mismatchedSteps = None\<rparr>))"

definition verifySteps :: "fs \<Rightarrow> string \<Rightarrow> string list \<Rightarrow> StepVerificationResult" where
  "verifySteps disk testFile expectedSteps' =
     (if \<not> fileExists disk testFile then
        \<lparr>passed = False, reason = Some MissingFile,
         expectedSteps = expectedSteps', actualSteps = [],
         missingSteps = Some expectedSteps', extraSteps = None, mismatchedSteps = None\<rparr>
      else compareSteps expectedSteps' (findStepsInTest disk testFile))"

section \<open>Scenario parser (specguard.ts, extractScenarios)\<close>

text \<open>
  The heading pattern \<^verbatim>\<open>/^##\s+(.+)/\<close>. The greedy \<^verbatim>\<open>\s+\<close> takes the whole
  run of white space; when the line ends there it gives characters back, from the right,
  until the group finds a character that is no line terminator. \<open>backtrackSpace\<close>
  works on the run without its first character, which \<^verbatim>\<open>\s+\<close> always keeps.
\<close>

fun orElse :: "'a option \<Rightarrow> 'a option \<Rightarrow> 'a option" where
  "orElse (Some g) other = Some g"
| "orElse None other = other"

fun backtrackSpace :: "string \<Rightarrow> string option" where
  "backtrackSpace [] = None"
| "backtrackSpace (c # cs) =
     orElse (backtrackSpace cs)
       (if isDot c then Some (takeWhile isDot (c # cs)) else None)"

definition h2Match :: "string \<Rightarrow> string option" where
  "h2Match line =
     (if prefix ''##'' line then
        (let rest = drop 2 line;
             spaces = takeWhile isSpace rest;
             after = dropWhile isSpace rest
         in if spaces = [] then None
            else if after \<noteq> [] then Some (takeWhile isDot after)
            else backtrackSpace (tl spaces))
      else None)"

text \<open>The levels pattern \<^verbatim>\<open>/^levels:\s*(.*)/\<close>: its group always matches.\<close>

definition levelsMatch :: "string \<Rightarrow> string option" where
  "levelsMatch line =
     (if prefix ''levels:'' line
      then Some (takeWhile isDot (dropWhile isSpace (drop 7 line)))
      else None)"

text \<open>
  \<^verbatim>\<open>trim(levelsMatch[1] || '').split(',').map(trim).filter(Boolean)\<close>: an empty
  string is the only string that \<^verbatim>\<open>Boolean\<close> refuses.
\<close>

definition parseLevels :: "string \<Rightarrow> string list" where
  "parseLevels g =
     (let levelsStr = trim (orEmpty (Some g))
      in filter (\<lambda>l. l \<noteq> []) (map trim (split_on CHR '','' levelsStr)))"

text \<open>The variables of the loop over the lines.\<close>

record parseState =
  scenarios :: "Scenario list"
  currentScenario :: "Scenario option"
  inCodeblock :: bool
  currentSteps :: "string list"

text \<open>
  \<^verbatim>\<open>if (currentScenario && currentSteps.length > 0) { currentScenario.steps =
  currentSteps; scenarios.push(currentScenario); }\<close>: the list of scenarios after it.
\<close>

definition saveScenario :: "parseState \<Rightarrow> Scenario list" where
  "saveScenario st =
     (case currentScenario st of
        None \<Rightarrow> scenarios st
      | Some sc \<Rightarrow>
          if length (currentSteps st) > 0
          then scenarios st @ [sc\<lparr>steps := currentSteps st\<rparr>]
          else scenarios st)"

text \<open>
  One turn of the loop. The checks come in the order of the source: heading, levels
  (only with a scenario open), opening fence, closing fence, step.
\<close>

definition parseLine :: "parseState \<Rightarrow> string \<Rightarrow> parseState" where
  "parseLine st line =
     (case h2Match line of
        Some g \<Rightarrow>
          \<lparr>scenarios = saveScenario st,
           currentScenario = Some \<lparr>name = orEmpty (Some (trim g)), levels = [], steps = []\<rparr>,
           inCodeblock = False,
           currentSteps = []\<rparr>
      | None \<Rightarrow>
          (case (currentScenario st, levelsMatch line) of
             (Some sc, Some g) \<Rightarrow> st\<lparr>currentScenario := Some (sc\<lparr>levels := parseLevels g\<rparr>)\<rparr>
           | _ \<Rightarrow>
               if prefix ''```specguard'' line then st\<lparr>inCodeblock := True\<rparr>
               else if prefix ''```'' line \<and> inCodeblock st then st\<lparr>inCodeblock := False\<rparr>
               else if inCodeblock st \<and> currentScenario st \<noteq> None \<and> trim line \<noteq> []
                    then st\<lparr>currentSteps := currentSteps st @ [line]\<rparr>
               else st))"

definition initialState :: parseState where
  "initialState =
     \<lparr>scenarios = [], currentScenario = None, inCodeblock = False, currentSteps = []\<rparr>"

text \<open>\<open>extractScenarios\<close> on the text that \<^verbatim>\<open>readFile(filePath)\<close> returned.\<close>

definition extractScenarios :: "string \<Rightarrow> Scenario list" where
  "extractScenarios content =
     saveScenario (foldl parseLine initialState (split_on CHR 0x0A content))"

section \<open>Path helpers (utils.ts) and path resolution (index.ts)\<close>

text \<open>\<^verbatim>\<open>.replace(/\/+/g, '/')\<close>: every run of slashes becomes one slash.\<close>

fun collapseSlashes :: "string \<Rightarrow> string" where
  "collapseSlashes (a # b # cs) =
     (if a = CHR ''/'' \<and> b = CHR ''/'' then collapseSlashes (b # cs)
      else a # collapseSlashes (b # cs))"
| "collapseSlashes cs = cs"

definition joinPath :: "string list \<Rightarrow> string" where
  "joinPath parts = collapseSlashes (join ''/'' (filter (\<lambda>p. p \<noteq> []) parts))"

definition dirname :: "string \<Rightarrow> string" where
  "dirname path =
     (let parts = split_on CHR ''/'' path;
          joined = join ''/'' (butlast parts)
      in if joined = [] then ''.'' else joined)"

text \<open>
  \<^verbatim>\<open>s.replace(/<suf>$/, '')\<close> for a literal \<open>suf\<close>: without the multiline flag the
  pattern matches at the end of the string only.
\<close>

definition stripSuffix :: "string \<Rightarrow> string \<Rightarrow> string" where
  "stripSuffix suf s = (if suffix suf s then take (length s - length suf) s else s)"

text \<open>
  The base directory that \<^verbatim>\<open>main\<close> hands to \<^verbatim>\<open>processSpecguardFile\<close>: the
  directory of the spec file without a trailing \<^verbatim>\<open>/<folder name>\<close>. The source
  builds a pattern from the folder name; \<open>baseDirOf\<close> takes the name literally, which
  is what the pattern does for a name of letters, digits, hyphens and underscores, such
  as the default \<^verbatim>\<open>specguard\<close>. For a name with pattern characters the two
  differ; the model of \<^verbatim>\<open>main\<close> below takes the replacement as a parameter.
\<close>

definition baseDirOf :: "string \<Rightarrow> string \<Rightarrow> string" where
  "baseDirOf fullPath specguardFolderName =
     stripSuffix (''/'' @ specguardFolderName) (dirname fullPath)"

text \<open>The relative key: the path after the last folder segment, without \<^verbatim>\<open>.md\<close>.\<close>

definition relPathNoExtOf :: "string \<Rightarrow> string \<Rightarrow> string" where
  "relPathNoExtOf specguardFile specguardFolderName =
     (let specFolderPattern = ''/'' @ specguardFolderName @ ''/'';
          relPath = (case lastIndexOf specguardFile specFolderPattern of
                       Some lastIndex \<Rightarrow> drop (lastIndex + length specFolderPattern) specguardFile
                     | None \<Rightarrow> [])
      in stripSuffix ''.md'' relPath)"

definition commonExtensions :: "string list" where
  "commonExtensions =
     [''.ts'', ''.test.ts'', ''.spec.ts'', ''.js'', ''.test.js'', ''.spec.js'', ''.sh'', ''.py'']"

text \<open>
  The loop over the candidate extensions, with its \<^verbatim>\<open>break\<close>: the value of
  \<^verbatim>\<open>testFile\<close> after it, the empty string when no candidate exists.
\<close>

fun findTestFile :: "fs \<Rightarrow> string \<Rightarrow> string list \<Rightarrow> string" where
  "findTestFile disk testFileBase [] = []"
| "findTestFile disk testFileBase (ext # exts) =
     (let candidate = testFileBase @ ext
      in if fileExists disk candidate then candidate
         else findTestFile disk testFileBase exts)"

definition resolveTestFile :: "fs \<Rightarrow> string \<Rightarrow> string list \<Rightarrow> string" where
  "resolveTestFile disk testFileBase exts =
     (let testFile = findTestFile disk testFileBase exts
      in if testFile = [] then testFileBase @ ''.*'' else testFile)"

section \<open>Orchestrator (index.ts, processSpecguardFile)\<close>

record ScenarioVerificationResult =
  scenarioName :: string
  stepVerification :: StepVerificationResult

text \<open>
  \<^verbatim>\<open>TestFileResult\<close>: \<open>filePassed\<close> and \<open>fileReason\<close> are its fields
  \<^verbatim>\<open>passed\<close> and \<^verbatim>\<open>reason\<close>, renamed apart from those of the verification
  result.
\<close>

record TestFileResult =
  testFile :: string
  specFile :: string
  level :: string
  filePassed :: bool
  fileReason :: "reason option"
  scenarioResults :: "ScenarioVerificationResult list"

datatype warning = NoScenariosDefined string

datatype error = ReadFailed string

text \<open>
  \<^verbatim>\<open>allLevels\<close>: a \<^verbatim>\<open>Set\<close> keeps its elements in the order of their first
  insertion; \<open>setAdd\<close> is \<^verbatim>\<open>Set.prototype.add\<close>.
\<close>

definition setAdd :: "string list \<Rightarrow> string \<Rightarrow> string list" where
  "setAdd xs x = (if x \<in> set xs then xs else xs @ [x])"

definition collectLevels :: "Scenario list \<Rightarrow> string list" where
  "collectLevels scs =
     foldl (\<lambda>allLevels scenario.
              foldl (\<lambda>allLevels' l. setAdd allLevels' (trim l)) allLevels (levels scenario))
       [] scs"

text \<open>The loop that collects \<^verbatim>\<open>allStepsForLevel\<close>.\<close>

fun allStepsLoop :: "Scenario list \<Rightarrow> string \<Rightarrow> string list \<Rightarrow> string list" where
  "allStepsLoop [] levelTrimmed acc = acc"
| "allStepsLoop (scenario # rest) levelTrimmed acc =
     allStepsLoop rest levelTrimmed
       (if levelTrimmed \<in> set (levels scenario) then acc @ steps scenario else acc)"

definition allStepsForLevel :: "Scenario list \<Rightarrow> string \<Rightarrow> string list" where
  "allStepsForLevel scs levelTrimmed = allStepsLoop scs levelTrimmed []"

text \<open>
  The check of one scenario against its slice: the index loop, where a later unequal
  index overwrites the reason of an earlier one, then the missing-file case.
\<close>

function scenarioCheckLoop ::
  "string list \<Rightarrow> string list \<Rightarrow> nat \<Rightarrow> StepVerificationResult \<Rightarrow> StepVerificationResult" where
  "scenarioCheckLoop scenarioExpectedSteps scenarioActualSteps i sv =
     (if i < length scenarioExpectedSteps then
        (let e = map_option trim (jsIndex scenarioExpectedSteps i);
             a = map_option trim (jsIndex scenarioActualSteps i)
         in scenarioCheckLoop scenarioExpectedSteps scenarioActualSteps (Suc i)
              (if e \<noteq> a
               then sv\<lparr>passed := False,
                       reason := Some (if truthy a then StepMismatch else StepCountMismatch)\<rparr>
               else sv))
      else sv)"
  by pat_completeness auto
termination
  by (relation "measure (\<lambda>(es, as, i, sv). length es - i)") auto

declare scenarioCheckLoop.simps [simp del]

definition scenarioVerification ::
  "StepVerificationResult \<Rightarrow> string list \<Rightarrow> string list \<Rightarrow> StepVerificationResult" where
  "scenarioVerification verification scenarioExpectedSteps scenarioActualSteps =
     (let sv = scenarioCheckLoop scenarioExpectedSteps scenarioActualSteps 0
                 \<lparr>passed = True, reason = None,
                  expectedSteps = scenarioExpectedSteps, actualSteps = scenarioActualSteps,
                  missingSteps = None, extraSteps = None, mismatchedSteps = None\<rparr>
      in if reason verification = Some MissingFile
         then sv\<lparr>passed := False, reason := Some MissingFile,
                 missingSteps := Some scenarioExpectedSteps\<rparr>
         else sv)"

text \<open>The loop over the scenarios with its running \<^verbatim>\<open>stepIndex\<close>.\<close>

fun scenarioResultsLoop ::
  "Scenario list \<Rightarrow> string \<Rightarrow> StepVerificationResult \<Rightarrow> nat \<Rightarrow>
   ScenarioVerificationResult list \<Rightarrow> ScenarioVerificationResult list" where
  "scenarioResultsLoop [] levelTrimmed verification stepIndex acc = acc"
| "scenarioResultsLoop (scenario # rest) levelTrimmed verification stepIndex acc =
     (if levelTrimmed \<in> set (levels scenario) then
        (let scenarioStepCount = length (steps scenario);
             scenarioActualSteps =
               slice (actualSteps verification) stepIndex (stepIndex + scenarioStepCount)
         in scenarioResultsLoop rest levelTrimmed verification (stepIndex + scenarioStepCount)
              (acc @ [\<lparr>scenarioName = name scenario,
                        stepVerification =
                          scenarioVerification verification (steps scenario) scenarioActualSteps\<rparr>]))
      else scenarioResultsLoop rest levelTrimmed verification stepIndex acc)"

text \<open>
  One turn of the loop over the levels. \<open>levelTestFile\<close> is the path the turn resolves,
  \<open>levelVerification\<close> the result of its call of \<^verbatim>\<open>verifySteps\<close>, \<open>processLevel\<close>
  the record it pushes.
\<close>

definition levelTestFile :: "fs \<Rightarrow> string \<Rightarrow> string \<Rightarrow> string \<Rightarrow> string" where
  "levelTestFile disk baseDir relPathNoExt lvl =
     (let levelTrimmed = trim lvl;
          testFileBase = joinPath [baseDir, levelTrimmed, relPathNoExt]
      in resolveTestFile disk testFileBase commonExtensions)"

definition levelVerification ::
  "fs \<Rightarrow> string \<Rightarrow> string \<Rightarrow> Scenario list \<Rightarrow> string \<Rightarrow> StepVerificationResult" where
  "levelVerification disk baseDir relPathNoExt scs lvl =
     verifySteps disk (levelTestFile disk baseDir relPathNoExt lvl)
       (allStepsForLevel scs (trim lvl))"

definition processLevel ::
  "fs \<Rightarrow> string \<Rightarrow> string \<Rightarrow> string \<Rightarrow> Scenario list \<Rightarrow> string \<Rightarrow> TestFileResult" where
  "processLevel disk specguardFile baseDir relPathNoExt scs lvl =
     (let levelTrimmed = trim lvl;
          verification = levelVerification disk baseDir relPathNoExt scs lvl
      in \<lparr>testFile = levelTestFile disk baseDir relPathNoExt lvl,
          specFile = specguardFile,
          level = levelTrimmed,
          filePassed = passed verification,
          fileReason = reason verification,
          scenarioResults = scenarioResultsLoop scs levelTrimmed verification 0 []\<rparr>)"

text \<open>
  \<open>processSpecguardFile\<close> returns the warnings it logs together with its results; a
  spec file that cannot be read makes \<^verbatim>\<open>readFile\<close> throw.
\<close>

definition processSpecguardFile ::
  "fs \<Rightarrow> string \<Rightarrow> string \<Rightarrow> string \<Rightarrow> error + (warning list \<times> TestFileResult list)" where
  "processSpecguardFile disk specguardFile baseDir specguardFolderName =
     (case disk specguardFile of
        None \<Rightarrow> Inl (ReadFailed specguardFile)
      | Some content \<Rightarrow>
          (let scs = extractScenarios content in
           if length scs = 0 then Inr ([NoScenariosDefined specguardFile], [])
           else
             (let relPathNoExt = relPathNoExtOf specguardFile specguardFolderName
              in Inr ([], map (processLevel disk specguardFile baseDir relPathNoExt scs)
                            (collectLevels scs)))))"

section \<open>Entry point (index.ts, main)\<close>





text \<open>
  The body of the loop of \<^verbatim>\<open>main\<close> for one path that the scan yields. The pattern
  that removes the folder from the directory of the spec file is built at run time from
  the folder name, \<^verbatim>\<open>new RegExp(`/${options.specguardFolderName}$`)\<close>; the replacement
  with it is the parameter \<open>stripFolder\<close>, a function of the folder name and the
  directory. For a folder name without pattern characters, such as the default
  \<^verbatim>\<open>specguard\<close>, it is \<open>literalFolder\<close>.
\<close>

definition literalFolder :: "string \<Rightarrow> string \<Rightarrow> string" where
  "literalFolder specguardFolderName specguardDir =
     stripSuffix (''/'' @ specguardFolderName) specguardDir"





section \<open>Example inputs\<close>

text \<open>
  A login expectation of four steps, a test file that has its markers with the middle
  two swapped, and one that has only the first two.
\<close>

definition loginExpected :: "string list" where
  "loginExpected = [''Validate input'', ''Check user'', '' Verify hash'', ''Create token'']"

definition loginSwapped :: string where
  "loginSwapped = join [CHR 0x0A]
     [''test(() => {'',
      ''  // step(\"Validate input\")'',
      ''  // step(\"Verify hash\")  // moved up'',
      ''  # step(\"Check user\")'',
      ''  //step(\"Create token \")'',
      ''})'']"

definition loginShort :: string where
  "loginShort = join [CHR 0x0A]
     [''// step(\"Validate input\")'',
      ''// step(\"Check user\")'']"

definition exampleDisk :: fs where
  "exampleDisk =
     [''app/unit/login.ts'' \<mapsto> loginSwapped, ''app/unit/short.ts'' \<mapsto> loginShort]"

text \<open>
  A spec file with two scenarios, the first for the levels unit and e2e, the second for
  e2e only, and a project around it: the unit test file has the first step and a marker
  whose text is one space; the e2e level has a shell file with all three steps and a
  Python file beside it.
\<close>

definition featureSpec :: string where
  "featureSpec = join [CHR 0x0A]
     [''# Feature'',
      '''',
      ''## First'',
      ''levels: unit, e2e'',
      ''```specguard'',
      ''Step one'',
      ''Step two'',
      ''```'',
      ''## Second'',
      ''levels: e2e'',
      ''```specguard'',
      ''Step three'',
      ''```'']"

definition featureUnitTest :: string where
  "featureUnitTest = join [CHR 0x0A]
     [''// step(\"Step one\")'',
      ''// step(\" \")'']"

definition featureE2eTest :: string where
  "featureE2eTest = join [CHR 0x0A]
     [''# step(\"Step one\")'',
      ''# step(\"Step two\")'',
      ''# step(\"Step three\")'']"

definition featureDisk :: fs where
  "featureDisk =
     [''proj/specguard/feature.md'' \<mapsto> featureSpec,
      ''proj/unit/feature.test.ts'' \<mapsto> featureUnitTest,
      ''proj/e2e/feature.sh'' \<mapsto> featureE2eTest,
      ''proj/e2e/feature.py'' \<mapsto> featureE2eTest]"

definition featureScenarios :: "Scenario list" where
  "featureScenarios =
     [\<lparr>name = ''First'', levels = [''unit'', ''e2e''], steps = [''Step one'', ''Step two'']\<rparr>,
      \<lparr>name = ''Second'', levels = [''e2e''], steps = [''Step three'']\<rparr>]"

text \<open>
  A spec file that names the level unit twice, one whose first scenario has a levels
  line but no step block, and one that has only such a scenario.
\<close>

definition duplicateLevelsSpec :: string where
  "duplicateLevelsSpec = join [CHR 0x0A]
     [''## Login'',
      ''levels: unit, unit'',
      ''```specguard'',
      ''Validate input'',
      ''```'']"

definition dropSpec :: string where
  "dropSpec = join [CHR 0x0A]
     [''## Draft'',
      ''levels: unit'',
      ''## Ready'',
      ''levels: unit'',
      ''```specguard'',
      ''Do it'',
      ''```'']"

definition draftSpec :: string where
  "draftSpec = join [CHR 0x0A]
     [''## Draft'',
      ''levels: unit'']"

definition dropDisk :: fs where
  "dropDisk =
     [''proj/specguard/drop.md'' \<mapsto> dropSpec, ''proj/specguard/draft.md'' \<mapsto> draftSpec]"



section \<open>Reference definitions\<close>

text \<open>
  The scenarios that the parser opens, whatever their steps: a history variable beside
  the parser's own state. \<open>closeAny\<close> records the open scenario, with the steps it has
  collected, when a heading or the end of the input closes it; the parser's state moves
  as \<^verbatim>\<open>extractScenarios\<close> moves it.
\<close>

definition closeAny :: "Scenario list \<Rightarrow> parseState \<Rightarrow> Scenario list" where
  "closeAny opened st =
     (case currentScenario st of
        None \<Rightarrow> opened
      | Some sc \<Rightarrow> opened @ [sc\<lparr>steps := currentSteps st\<rparr>])"

definition trackLine :: "Scenario list \<times> parseState \<Rightarrow> string \<Rightarrow> Scenario list \<times> parseState" where
  "trackLine tracked line =
     ((if h2Match line = None then fst tracked else closeAny (fst tracked) (snd tracked)),
      parseLine (snd tracked) line)"

definition openedScenarios :: "string \<Rightarrow> Scenario list" where
  "openedScenarios content =
     (let tracked = foldl trackLine ([], initialState) (split_on CHR 0x0A content)
      in closeAny (fst tracked) (snd tracked))"

text \<open>A level list as the parser stores it: every entry trimmed and not empty.\<close>

definition levelsTrimmed :: "Scenario \<Rightarrow> bool" where
  "levelsTrimmed sc = list_all (\<lambda>l. l \<noteq> [] \<and> trim l = l) (levels sc)"

text \<open>The invariant of the parser's loop: every level list in the state is trimmed.\<close>

definition stateTrimmed :: "parseState \<Rightarrow> bool" where
  "stateTrimmed st =
     (list_all levelsTrimmed (scenarios st)
      \<and> (case currentScenario st of None \<Rightarrow> True | Some sc \<Rightarrow> levelsTrimmed sc))"

text \<open>
  The running offset of the per-scenario breakdown: it starts at the given offset and
  each scenario advances it by the number of its steps.
\<close>

fun runningOffsets :: "nat \<Rightarrow> Scenario list \<Rightarrow> nat list" where
  "runningOffsets off [] = []"
| "runningOffsets off (sc # rest) = off # runningOffsets (off + length (steps sc)) rest"

text \<open>The entries that \<^verbatim>\<open>verifySteps\<close> reports for lists of equal length.\<close>

definition mismatchesOf :: "string list \<Rightarrow> string list \<Rightarrow> mismatchedStep list" where
  "mismatchesOf expd act =
     map (\<lambda>i. \<lparr>expected = trim (expd ! i), actual = trim (act ! i), index = i\<rparr>)
       (filter (\<lambda>i. trim (expd ! i) \<noteq> trim (act ! i)) [0..<length expd])"





section \<open>Properties of the verifier\<close>

lemmas charClasses = isSpace_def isDot_def isLineTerminator_def

lemmas stepRegexDefs = stepRegex_def stripLeader_def greedyGroup_def

subsection \<open>The index loops in closed form\<close>

lemma missingLoop_eq:
  "missingLoop ne na i acc = acc @ drop (max i (length na)) ne"
proof (induction ne na i acc rule: missingLoop.induct)
  case (1 ne na i acc)
  show ?case
  proof (cases "i < length ne")
    case False
    then show ?thesis by (subst missingLoop.simps) simp
  next
    case lt: True
    show ?thesis
    proof (cases "length na \<le> i")
      case True
      have "drop i ne = ne ! i # drop (Suc i) ne"
        using lt by (simp add: Cons_nth_drop_Suc)
      then show ?thesis
        using lt True "1.IH"[OF lt]
        by (subst missingLoop.simps) (simp add: jsIndex_def max_def)
    next
      case False
      then show ?thesis
        using lt "1.IH"[OF lt]
        by (subst missingLoop.simps) (simp add: max_def)
    qed
  qed
qed

lemma extraLoop_eq: "extraLoop na i acc = acc @ drop i na"
proof (induction na i acc rule: extraLoop.induct)
  case (1 na i acc)
  show ?case
  proof (cases "i < length na")
    case False
    then show ?thesis by (subst extraLoop.simps) simp
  next
    case True
    have "drop i na = na ! i # drop (Suc i) na"
      using True by (simp add: Cons_nth_drop_Suc)
    then show ?thesis
      using True "1.IH"[OF True]
      by (subst extraLoop.simps) (simp add: jsIndex_def)
  qed
qed

lemma mismatchLoop_eq:
  "length ne = length na \<Longrightarrow>
   mismatchLoop ne na i acc =
     acc @ map (\<lambda>j. \<lparr>expected = ne ! j, actual = na ! j, index = j\<rparr>)
             (filter (\<lambda>j. ne ! j \<noteq> na ! j) [i..<length ne])"
proof (induction ne na i acc rule: mismatchLoop.induct)
  case (1 ne na i acc)
  show ?case
  proof (cases "i < length ne")
    case False
    then show ?thesis by (subst mismatchLoop.simps) simp
  next
    case True
    have upt: "[i..<length ne] = i # [Suc i..<length ne]"
      using True by (simp add: upt_conv_Cons)
    have ia: "i < length na" using True "1.prems" by simp
    show ?thesis
    proof (cases "ne ! i = na ! i")
      case same: True
      show ?thesis
        using True ia same "1.IH"[OF True refl refl "1.prems"]
        by (subst mismatchLoop.simps) (simp add: upt jsIndex_def Let_def)
    next
      case differ: False
      show ?thesis
        using True ia differ "1.IH"[OF True refl refl "1.prems"]
        by (subst mismatchLoop.simps) (simp add: upt jsIndex_def Let_def)
    qed
  qed
qed

lemma mismatchLoop_trim:
  assumes "length expd = length act"
  shows "mismatchLoop (map trim expd) (map trim act) 0 [] = mismatchesOf expd act"
proof -
  have f: "filter (\<lambda>j. map trim expd ! j \<noteq> map trim act ! j) [0..<length expd]
         = filter (\<lambda>i. trim (expd ! i) \<noteq> trim (act ! i)) [0..<length expd]"
    using assms by (intro filter_cong) auto
  have m: "map (\<lambda>j. \<lparr>expected = map trim expd ! j, actual = map trim act ! j, index = j\<rparr>)
             (filter (\<lambda>i. trim (expd ! i) \<noteq> trim (act ! i)) [0..<length expd])
         = mismatchesOf expd act"
    unfolding mismatchesOf_def using assms by (intro map_cong) auto
  show ?thesis
    using assms mismatchLoop_eq[of "map trim expd" "map trim act" 0 "[]"] f m by simp
qed

lemma mismatchesOf_empty:
  "mismatchesOf expd act = [] \<longleftrightarrow> (\<forall>i<length expd. trim (expd ! i) = trim (act ! i))"
  by (auto simp: mismatchesOf_def filter_empty_conv)

lemma compareSteps_equal_length:
  assumes "length expd = length act"
  shows "compareSteps expd act =
     (if mismatchesOf expd act \<noteq> [] then
        \<lparr>passed = False, reason = Some StepMismatch, expectedSteps = expd, actualSteps = act,
         missingSteps = None, extraSteps = None, mismatchedSteps = Some (mismatchesOf expd act)\<rparr>
      else
        \<lparr>passed = True, reason = None, expectedSteps = expd, actualSteps = act,
         missingSteps = None, extraSteps = None, mismatchedSteps = None\<rparr>)"
  using assms by (simp add: compareSteps_def Let_def mismatchLoop_trim)

lemma compareSteps_unequal_length:
  assumes "length expd \<noteq> length act"
  shows "compareSteps expd act =
     \<lparr>passed = False, reason = Some StepCountMismatch, expectedSteps = expd, actualSteps = act,
      missingSteps = Some (drop (length act) (map trim expd)),
      extraSteps = Some (drop (length expd) (map trim act)), mismatchedSteps = None\<rparr>"
  using assms by (simp add: compareSteps_def Let_def missingLoop_eq extraLoop_eq)

subsection \<open>The example files\<close>

lemma loginSwapped_steps:
  "findStepsInTest exampleDisk ''app/unit/login.ts'' =
     [''Validate input'', ''Verify hash'', ''Check user'', ''Create token '']"
  by (simp add: findStepsInTest_def exampleDisk_def loginSwapped_def stepRegexDefs charClasses)

lemma loginShort_steps:
  "findStepsInTest exampleDisk ''app/unit/short.ts'' = [''Validate input'', ''Check user'']"
  by (simp add: findStepsInTest_def exampleDisk_def loginShort_def stepRegexDefs charClasses)

lemma trim_examples:
  "trim ''Validate input'' = ''Validate input''"
  "trim ''Check user'' = ''Check user''"
  "trim '' Verify hash'' = ''Verify hash''"
  "trim ''Verify hash'' = ''Verify hash''"
  "trim ''Create token'' = ''Create token''"
  "trim ''Create token '' = ''Create token''"
  by (simp_all add: trim_def charClasses)

subsection \<open>Equal lengths\<close>

text \<open>
  Claim C1. When the test file exists and the steps found in it are as many as the
  expected steps, \<^verbatim>\<open>verifySteps\<close> returns the reason step-mismatch exactly when some
  index has an expected step that differs from the actual one after trimming both, with
  one entry (index, trimmed expected, trimmed actual) for each such index, in order; and
  it returns passed, with no reason, exactly when every index matches after trimming.
\<close>

theorem C1_verifySteps_equal_length:
  assumes "fileExists disk tfile"
    and "findStepsInTest disk tfile = act"
    and "length expd = length act"
  shows "(reason (verifySteps disk tfile expd) = Some StepMismatch
            \<longleftrightarrow> (\<exists>i<length expd. trim (expd ! i) \<noteq> trim (act ! i)))
       \<and> (reason (verifySteps disk tfile expd) = Some StepMismatch
            \<longrightarrow> mismatchedSteps (verifySteps disk tfile expd) =
                Some (map (\<lambda>i. \<lparr>expected = trim (expd ! i), actual = trim (act ! i), index = i\<rparr>)
                       (filter (\<lambda>i. trim (expd ! i) \<noteq> trim (act ! i)) [0..<length expd])))
       \<and> (passed (verifySteps disk tfile expd)
            \<longleftrightarrow> (\<forall>i<length expd. trim (expd ! i) = trim (act ! i)))
       \<and> (passed (verifySteps disk tfile expd)
            \<longleftrightarrow> reason (verifySteps disk tfile expd) = None)"
proof -
  have v: "verifySteps disk tfile expd = compareSteps expd act"
    using assms(1,2) by (simp add: verifySteps_def)
  show ?thesis
  proof (cases "mismatchesOf expd act = []")
    case True
    then have "\<forall>i<length expd. trim (expd ! i) = trim (act ! i)"
      by (simp add: mismatchesOf_empty)
    then show ?thesis
      using True by (simp add: v compareSteps_equal_length[OF assms(3)])
  next
    case False
    then have "\<exists>i<length expd. trim (expd ! i) \<noteq> trim (act ! i)"
      by (auto simp: mismatchesOf_empty)
    then show ?thesis
      using False
      by (simp add: v compareSteps_equal_length[OF assms(3)] mismatchesOf_def[symmetric])
  qed
qed

theorem C1_verifySteps_equal_length_witness:
  "reason (verifySteps exampleDisk ''app/unit/login.ts'' loginExpected) = Some StepMismatch
   \<and> mismatchedSteps (verifySteps exampleDisk ''app/unit/login.ts'' loginExpected) =
       Some [\<lparr>expected = ''Check user'', actual = ''Verify hash'', index = 1\<rparr>,
             \<lparr>expected = ''Verify hash'', actual = ''Check user'', index = 2\<rparr>]
   \<and> \<not> passed (verifySteps exampleDisk ''app/unit/login.ts'' loginExpected)"
proof -
  let ?act = "[''Validate input'', ''Verify hash'', ''Check user'', ''Create token '']"
  have ex: "fileExists exampleDisk ''app/unit/login.ts''"
    by (simp add: fileExists_def exampleDisk_def)
  have len: "length loginExpected = length ?act"
    by (simp add: loginExpected_def)
  note inst = C1_verifySteps_equal_length[OF ex loginSwapped_steps len]
  have idx: "[0..<length loginExpected] = [0, Suc 0, Suc (Suc 0), Suc (Suc (Suc 0))]"
    by (simp add: loginExpected_def upt_rec)
  have "Suc 0 < length loginExpected \<and> trim (loginExpected ! Suc 0) \<noteq> trim (?act ! Suc 0)"
    by (simp add: loginExpected_def trim_examples)
  then have bad: "\<exists>i<length loginExpected. trim (loginExpected ! i) \<noteq> trim (?act ! i)"
    by blast
  have r: "reason (verifySteps exampleDisk ''app/unit/login.ts'' loginExpected) = Some StepMismatch"
    using inst bad by blast
  have m: "mismatchedSteps (verifySteps exampleDisk ''app/unit/login.ts'' loginExpected) =
      Some (map (\<lambda>i. \<lparr>expected = trim (loginExpected ! i), actual = trim (?act ! i), index = i\<rparr>)
             (filter (\<lambda>i. trim (loginExpected ! i) \<noteq> trim (?act ! i))
                [0..<length loginExpected]))"
    using inst r by blast
  have p: "\<not> passed (verifySteps exampleDisk ''app/unit/login.ts'' loginExpected)"
    using inst r by simp
  have m': "mismatchedSteps (verifySteps exampleDisk ''app/unit/login.ts'' loginExpected) =
       Some [\<lparr>expected = ''Check user'', actual = ''Verify hash'', index = 1\<rparr>,
             \<lparr>expected = ''Verify hash'', actual = ''Check user'', index = 2\<rparr>]"
    unfolding m idx by (simp add: loginExpected_def trim_examples)
  show ?thesis using r m' p by simp
qed

subsection \<open>Unequal lengths\<close>

text \<open>
  Claim C2. When the test file exists and the steps found in it are not as many as the
  expected steps, \<^verbatim>\<open>verifySteps\<close> fails with the reason step-count-mismatch; the
  missing steps are the expected entries at the indices from the number of actual steps
  on, and the extra steps are the actual entries at the indices from the number of
  expected steps on: the tail of each list beyond the length of the other, whatever the
  entries before are. The entries are reported as they are compared, trimmed.
\<close>

theorem C2_verifySteps_unequal_length:
  assumes "fileExists disk tfile"
    and "findStepsInTest disk tfile = act"
    and "length expd \<noteq> length act"
  shows "passed (verifySteps disk tfile expd) = False
       \<and> reason (verifySteps disk tfile expd) = Some StepCountMismatch
       \<and> missingSteps (verifySteps disk tfile expd) = Some (map trim (drop (length act) expd))
       \<and> extraSteps (verifySteps disk tfile expd) = Some (map trim (drop (length expd) act))"
  using assms by (simp add: verifySteps_def compareSteps_unequal_length drop_map)

theorem C2_verifySteps_unequal_length_witness:
  "reason (verifySteps exampleDisk ''app/unit/short.ts'' loginExpected) = Some StepCountMismatch
   \<and> missingSteps (verifySteps exampleDisk ''app/unit/short.ts'' loginExpected) =
        Some [''Verify hash'', ''Create token'']
   \<and> extraSteps (verifySteps exampleDisk ''app/unit/short.ts'' loginExpected) = Some []"
proof -
  have ex: "fileExists exampleDisk ''app/unit/short.ts''"
    by (simp add: fileExists_def exampleDisk_def)
  have len: "length loginExpected \<noteq> length [''Validate input'', ''Check user'']"
    by (simp add: loginExpected_def)
  show ?thesis
    using C2_verifySteps_unequal_length[OF ex loginShort_steps len]
    by (simp add: loginExpected_def trim_examples)
qed

subsection \<open>Missing file\<close>

text \<open>
  Claim C3. When the implementation file does not exist, \<^verbatim>\<open>verifySteps\<close> returns,
  for every list of expected steps, a result that did not pass, with the reason
  missing-file, the whole expected list as the missing steps and no actual steps.
\<close>

theorem C3_verifySteps_missing_file:
  assumes "\<not> fileExists disk tfile"
  shows "verifySteps disk tfile expd =
     \<lparr>passed = False, reason = Some MissingFile, expectedSteps = expd, actualSteps = [],
      missingSteps = Some expd, extraSteps = None, mismatchedSteps = None\<rparr>"
  using assms by (simp add: verifySteps_def)

theorem C3_verifySteps_missing_file_witness:
  "verifySteps exampleDisk ''app/unit/absent.ts'' loginExpected =
     \<lparr>passed = False, reason = Some MissingFile, expectedSteps = loginExpected,
      actualSteps = [], missingSteps = Some loginExpected, extraSteps = None,
      mismatchedSteps = None\<rparr>"
proof -
  have "\<not> fileExists exampleDisk ''app/unit/absent.ts''"
    by (simp add: fileExists_def exampleDisk_def)
  then show ?thesis
    by (rule C3_verifySteps_missing_file)
qed

section \<open>Properties of the step extractor\<close>

subsection \<open>Trimming twice\<close>

lemma dropWhile_idem: "dropWhile P (dropWhile P xs) = dropWhile P xs"
  by (induction xs) auto

lemma dropWhile_fixed_head:
  assumes "dropWhile P (a # r) = a # r"
  shows "\<not> P a"
proof
  assume "P a"
  then have "dropWhile P r = a # r" using assms by simp
  then have "length (dropWhile P r) = Suc (length r)" by simp
  then show False using length_dropWhile_le[of P r] by simp
qed

lemma trim_idem: "trim (trim s) = trim s"
proof -
  define u where "u = dropWhile isSpace s"
  define v where "v = dropWhile isSpace (rev u)"
  have t: "trim s = rev v" by (simp add: trim_def u_def v_def)
  have v_idem: "dropWhile isSpace v = v" by (simp add: v_def dropWhile_idem)
  have u_idem: "dropWhile isSpace u = u" by (simp add: u_def dropWhile_idem)
  have key: "dropWhile isSpace (rev v) = rev v"
  proof (cases "rev v")
    case Nil
    then show ?thesis by simp
  next
    case (Cons a as)
    have "takeWhile isSpace (rev u) @ v = rev u"
      unfolding v_def by (rule takeWhile_dropWhile_id)
    then have "rev (takeWhile isSpace (rev u) @ v) = u" by simp
    then have "u = rev v @ rev (takeWhile isSpace (rev u))" by simp
    then have "u = a # (as @ rev (takeWhile isSpace (rev u)))" using Cons by simp
    then have "dropWhile isSpace (a # (as @ rev (takeWhile isSpace (rev u))))
        = a # (as @ rev (takeWhile isSpace (rev u)))"
      using u_idem by simp
    then have "\<not> isSpace a" by (rule dropWhile_fixed_head)
    then show ?thesis using Cons by simp
  qed
  have "trim (rev v) = rev v"
    by (simp add: trim_def key v_idem)
  then show ?thesis by (simp only: t)
qed

subsection \<open>No empty step\<close>










section \<open>Properties of the orchestrator\<close>

lemmas parserDefs = parseLine_def saveScenario_def h2Match_def levelsMatch_def parseLevels_def
  initialState_def

subsection \<open>The example project\<close>

lemma featureSpec_lines:
  "split_on CHR 0x0A featureSpec =
     [''# Feature'', [], ''## First'', ''levels: unit, e2e'', ''```specguard'', ''Step one'',
      ''Step two'', ''```'', ''## Second'', ''levels: e2e'', ''```specguard'', ''Step three'',
      ''```'']"
  by (simp add: featureSpec_def)

lemma featureSpec_scenarios: "extractScenarios featureSpec = featureScenarios"
  unfolding extractScenarios_def featureSpec_lines featureScenarios_def
  by (simp add: parserDefs trim_def charClasses)

lemma featureScenarios_levels: "collectLevels featureScenarios = [''unit'', ''e2e'']"
  by (simp add: collectLevels_def featureScenarios_def setAdd_def trim_def charClasses)

lemma featureDisk_exists:
  "\<not> fileExists featureDisk ''proj/e2e/feature.ts''"
  "\<not> fileExists featureDisk ''proj/e2e/feature.test.ts''"
  "\<not> fileExists featureDisk ''proj/e2e/feature.spec.ts''"
  "\<not> fileExists featureDisk ''proj/e2e/feature.js''"
  "\<not> fileExists featureDisk ''proj/e2e/feature.test.js''"
  "\<not> fileExists featureDisk ''proj/e2e/feature.spec.js''"
  "fileExists featureDisk ''proj/e2e/feature.sh''"
  "fileExists featureDisk ''proj/e2e/feature.py''"
  "\<not> fileExists featureDisk ''proj/unit/feature.ts''"
  "fileExists featureDisk ''proj/unit/feature.test.ts''"
  by (simp_all add: fileExists_def featureDisk_def)

lemma featureDisk_perf:
  "\<not> fileExists featureDisk ''proj/perf/feature.ts''"
  "\<not> fileExists featureDisk ''proj/perf/feature.test.ts''"
  "\<not> fileExists featureDisk ''proj/perf/feature.spec.ts''"
  "\<not> fileExists featureDisk ''proj/perf/feature.js''"
  "\<not> fileExists featureDisk ''proj/perf/feature.test.js''"
  "\<not> fileExists featureDisk ''proj/perf/feature.spec.js''"
  "\<not> fileExists featureDisk ''proj/perf/feature.sh''"
  "\<not> fileExists featureDisk ''proj/perf/feature.py''"
  "\<not> fileExists featureDisk ''proj/perf/feature.*''"
  by (simp_all add: fileExists_def featureDisk_def)

lemma feature_paths:
  "joinPath [''proj'', ''e2e'', ''feature''] = ''proj/e2e/feature''"
  "joinPath [''proj'', ''unit'', ''feature''] = ''proj/unit/feature''"
  "joinPath [''proj'', ''perf'', ''feature''] = ''proj/perf/feature''"
  "relPathNoExtOf ''proj/specguard/feature.md'' ''specguard'' = ''feature''"
  "baseDirOf ''proj/specguard/feature.md'' ''specguard'' = ''proj''"
  by (simp_all add: joinPath_def relPathNoExtOf_def baseDirOf_def dirname_def stripSuffix_def
      suffix_def)

lemma feature_trims:
  "trim ''unit'' = ''unit''" "trim ''e2e'' = ''e2e''" "trim ''perf'' = ''perf''"
  "trim ''Step one'' = ''Step one''" "trim ''Step two'' = ''Step two''"
  "trim ''Step three'' = ''Step three''" "trim '' '' = []"
  by (simp_all add: trim_def charClasses)

lemma featureUnit_steps:
  "findStepsInTest featureDisk ''proj/unit/feature.test.ts'' = [''Step one'', '' '']"
  by (simp add: findStepsInTest_def featureDisk_def featureUnitTest_def stepRegexDefs charClasses)

subsection \<open>The levels of a file\<close>

lemma setAdd_set: "set (setAdd xs x) = insert x (set xs)"
  by (auto simp: setAdd_def)

lemma setAdd_distinct: "distinct xs \<Longrightarrow> distinct (setAdd xs x)"
  by (simp add: setAdd_def)

lemma addLevels_set:
  "set (foldl (\<lambda>a l. setAdd a (trim l)) acc ls) = set acc \<union> trim ` set ls"
  by (induction ls arbitrary: acc) (auto simp: setAdd_set)

lemma addLevels_distinct:
  "distinct acc \<Longrightarrow> distinct (foldl (\<lambda>a l. setAdd a (trim l)) acc ls)"
  by (induction ls arbitrary: acc) (auto simp: setAdd_distinct)

lemma collectLoop_set:
  "set (foldl (\<lambda>a sc. foldl (\<lambda>a' l. setAdd a' (trim l)) a (levels sc)) acc scs)
     = set acc \<union> (\<Union>sc \<in> set scs. trim ` set (levels sc))"
  by (induction scs arbitrary: acc) (auto simp: addLevels_set)

lemma collectLoop_distinct:
  "distinct acc \<Longrightarrow>
   distinct (foldl (\<lambda>a sc. foldl (\<lambda>a' l. setAdd a' (trim l)) a (levels sc)) acc scs)"
  by (induction scs arbitrary: acc) (auto simp: addLevels_distinct)

lemma collectLevels_set:
  "set (collectLevels scs) = (\<Union>sc \<in> set scs. trim ` set (levels sc))"
  by (simp add: collectLevels_def collectLoop_set)

lemma collectLevels_distinct: "distinct (collectLevels scs)"
  by (simp add: collectLevels_def collectLoop_distinct)

lemma collectLevels_trimmed: "l \<in> set (collectLevels scs) \<Longrightarrow> trim l = l"
  by (auto simp: collectLevels_set trim_idem)

subsection \<open>The expected steps of a level\<close>

lemma allStepsLoop_eq:
  "allStepsLoop scs l acc = acc @ concat (map steps (filter (\<lambda>s. l \<in> set (levels s)) scs))"
  by (induction scs arbitrary: acc) auto

lemma allStepsForLevel_eq:
  "allStepsForLevel scs l = concat (map steps (filter (\<lambda>s. l \<in> set (levels s)) scs))"
  by (simp add: allStepsForLevel_def allStepsLoop_eq)

lemma compareSteps_expectedSteps: "expectedSteps (compareSteps e a) = e"
  by (simp add: compareSteps_def Let_def)

lemma verifySteps_expectedSteps: "expectedSteps (verifySteps disk f e) = e"
  by (simp add: verifySteps_def compareSteps_expectedSteps)

lemma processLevel_fields:
  "level (processLevel disk spec baseDir rel scs l) = trim l"
  "testFile (processLevel disk spec baseDir rel scs l) = levelTestFile disk baseDir rel l"
  "filePassed (processLevel disk spec baseDir rel scs l) =
     passed (levelVerification disk baseDir rel scs l)"
  "fileReason (processLevel disk spec baseDir rel scs l) =
     reason (levelVerification disk baseDir rel scs l)"
  "scenarioResults (processLevel disk spec baseDir rel scs l) =
     scenarioResultsLoop scs (trim l) (levelVerification disk baseDir rel scs l) 0 []"
  by (simp_all add: processLevel_def Let_def)

text \<open>
  Claim C4. For every spec file and every level that \<^verbatim>\<open>processSpecguardFile\<close>
  processes (the distinct levels of the file's scenarios, one result each, in order),
  the result's verdict is that of the call of \<^verbatim>\<open>verifySteps\<close> for the level, and
  the expected steps of that call are the concatenation, in the order in which the spec
  file declares them, of the steps of every scenario whose levels contain the level.
\<close>

theorem C4_expected_steps_of_level:
  assumes "processSpecguardFile disk spec baseDir folder = Inr (ws, results)"
    and "disk spec = Some content"
    and "r \<in> set results"
  shows "level r \<in> set (collectLevels (extractScenarios content))
       \<and> filePassed r =
           passed (levelVerification disk baseDir (relPathNoExtOf spec folder)
                     (extractScenarios content) (level r))
       \<and> fileReason r =
           reason (levelVerification disk baseDir (relPathNoExtOf spec folder)
                     (extractScenarios content) (level r))
       \<and> expectedSteps (levelVerification disk baseDir (relPathNoExtOf spec folder)
                          (extractScenarios content) (level r)) =
           concat (map steps
                     (filter (\<lambda>s. level r \<in> set (levels s)) (extractScenarios content)))"
proof -
  define scs where "scs = extractScenarios content"
  define rel where "rel = relPathNoExtOf spec folder"
  have res: "results = map (processLevel disk spec baseDir rel scs) (collectLevels scs)"
  proof (cases "length scs = 0")
    case True
    then have "results = []"
      using assms(1,2) by (simp add: processSpecguardFile_def scs_def)
    then show ?thesis using assms(3) by simp
  next
    case False
    then show ?thesis
      using assms(1,2) by (simp add: processSpecguardFile_def scs_def rel_def Let_def)
  qed
  then obtain l where l: "l \<in> set (collectLevels scs)"
    and r: "r = processLevel disk spec baseDir rel scs l"
    using assms(3) by auto
  have tl: "trim l = l" using l by (rule collectLevels_trimmed)
  have lev: "level r = l" by (simp add: r processLevel_fields tl)
  have p: "filePassed r = passed (levelVerification disk baseDir rel scs l)"
    by (simp add: r processLevel_fields)
  have q: "fileReason r = reason (levelVerification disk baseDir rel scs l)"
    by (simp add: r processLevel_fields)
  have e: "expectedSteps (levelVerification disk baseDir rel scs l) =
      concat (map steps (filter (\<lambda>s. l \<in> set (levels s)) scs))"
    by (simp add: levelVerification_def verifySteps_expectedSteps allStepsForLevel_eq tl)
  show ?thesis
    using l p q e unfolding lev scs_def rel_def by simp
qed

theorem C4_expected_steps_of_level_witness:
  "expectedSteps (levelVerification featureDisk ''proj'' ''feature'' featureScenarios ''e2e'')
     = [''Step one'', ''Step two'', ''Step three'']
   \<and> map level (snd (projr (processSpecguardFile featureDisk ''proj/specguard/feature.md''
                              ''proj'' ''specguard''))) = [''unit'', ''e2e'']"
proof -
  let ?out = "processSpecguardFile featureDisk ''proj/specguard/feature.md'' ''proj'' ''specguard''"
  let ?r = "processLevel featureDisk ''proj/specguard/feature.md'' ''proj'' ''feature''
              featureScenarios ''e2e''"
  let ?u = "processLevel featureDisk ''proj/specguard/feature.md'' ''proj'' ''feature''
              featureScenarios ''unit''"
  have content: "featureDisk ''proj/specguard/feature.md'' = Some featureSpec"
    by (simp add: featureDisk_def)
  have out: "?out = Inr ([], [?u, ?r])"
    by (simp add: processSpecguardFile_def content featureSpec_scenarios
        featureScenarios_levels feature_paths)
      (simp add: featureScenarios_def Let_def)
  have mem: "?r \<in> set [?u, ?r]" by simp
  have lev: "level ?r = ''e2e''" "level ?u = ''unit''"
    by (simp_all add: processLevel_fields feature_trims)
  note inst = C4_expected_steps_of_level[OF out content mem]
  have "expectedSteps (levelVerification featureDisk ''proj'' ''feature'' featureScenarios ''e2e'')
      = concat (map steps (filter (\<lambda>s. ''e2e'' \<in> set (levels s)) featureScenarios))"
    using inst by (simp add: lev feature_paths featureSpec_scenarios)
  then have a: "expectedSteps
      (levelVerification featureDisk ''proj'' ''feature'' featureScenarios ''e2e'')
      = [''Step one'', ''Step two'', ''Step three'']"
    by (simp add: featureScenarios_def)
  have b: "map level (snd (projr ?out)) = [''unit'', ''e2e'']"
    by (simp add: out lev)
  show ?thesis using a b by (rule conjI)
qed

subsection \<open>Path resolution\<close>

lemma findTestFile_first:
  assumes "\<forall>x \<in> set pre. \<not> fileExists disk (base @ x)"
    and "fileExists disk (base @ e)"
  shows "findTestFile disk base (pre @ e # post) = base @ e"
  using assms by (induction pre) simp_all

lemma findTestFile_none:
  assumes "\<forall>x \<in> set exts. \<not> fileExists disk (base @ x)"
  shows "findTestFile disk base exts = []"
  using assms by (induction exts) simp_all

lemma commonExtensions_nonempty: "e \<in> set commonExtensions \<Longrightarrow> e \<noteq> []"
  by (auto simp: commonExtensions_def)

lemma specguard_example_base:
  "joinPath [baseDirOf ''a/specguard/b.md'' ''specguard'', trim ''unit'',
             relPathNoExtOf ''a/specguard/b.md'' ''specguard''] = ''a/unit/b''"
  by (simp add: joinPath_def relPathNoExtOf_def baseDirOf_def dirname_def stripSuffix_def
      suffix_def trim_def charClasses)

text \<open>
  Claim C6. For every spec file and level, the candidate base is the base directory, the
  level and the relative key joined by slashes; the suffixes of the fixed priority list
  are appended to it in order and the first path that exists on disk is selected (the
  loop then leaves a non-empty path: found). If none exists the result is the synthetic
  path candidate base + \<^verbatim>\<open>.*\<close> and the loop has left the empty string: not found.
  For the folder name \<^verbatim>\<open>specguard\<close> and the level \<^verbatim>\<open>unit\<close>, the spec file
  \<^verbatim>\<open>a/specguard/b.md\<close> has the candidate base \<^verbatim>\<open>a/unit/b\<close>.
\<close>

theorem C6_path_resolution:
  "(commonExtensions = pre @ e # post
      \<and> (\<forall>x \<in> set pre. \<not> fileExists disk (joinPath [baseDir, trim lvl, rel] @ x))
      \<and> fileExists disk (joinPath [baseDir, trim lvl, rel] @ e)
    \<longrightarrow> levelTestFile disk baseDir rel lvl = joinPath [baseDir, trim lvl, rel] @ e
        \<and> findTestFile disk (joinPath [baseDir, trim lvl, rel]) commonExtensions \<noteq> [])
   \<and> ((\<forall>x \<in> set commonExtensions. \<not> fileExists disk (joinPath [baseDir, trim lvl, rel] @ x))
    \<longrightarrow> levelTestFile disk baseDir rel lvl = joinPath [baseDir, trim lvl, rel] @ ''.*''
        \<and> findTestFile disk (joinPath [baseDir, trim lvl, rel]) commonExtensions = [])
   \<and> joinPath [baseDirOf ''a/specguard/b.md'' ''specguard'', trim ''unit'',
                relPathNoExtOf ''a/specguard/b.md'' ''specguard''] = ''a/unit/b''"
proof (intro conjI impI)
  assume h: "commonExtensions = pre @ e # post
      \<and> (\<forall>x \<in> set pre. \<not> fileExists disk (joinPath [baseDir, trim lvl, rel] @ x))
      \<and> fileExists disk (joinPath [baseDir, trim lvl, rel] @ e)"
  from h have h1: "commonExtensions = pre @ e # post" by (rule conjunct1)
  from h have h2: "\<forall>x \<in> set pre. \<not> fileExists disk (joinPath [baseDir, trim lvl, rel] @ x)"
    by (elim conjE)
  from h have h3: "fileExists disk (joinPath [baseDir, trim lvl, rel] @ e)"
    by (elim conjE)
  have "e \<in> set commonExtensions" by (simp add: h1)
  then have ne: "e \<noteq> []" by (rule commonExtensions_nonempty)
  have f: "findTestFile disk (joinPath [baseDir, trim lvl, rel]) commonExtensions
      = joinPath [baseDir, trim lvl, rel] @ e"
    by (simp only: h1 findTestFile_first[OF h2 h3])
  show "levelTestFile disk baseDir rel lvl = joinPath [baseDir, trim lvl, rel] @ e"
    using ne by (simp add: levelTestFile_def resolveTestFile_def Let_def f)
  show "findTestFile disk (joinPath [baseDir, trim lvl, rel]) commonExtensions \<noteq> []"
    using ne by (simp add: f)
next
  assume h: "\<forall>x \<in> set commonExtensions. \<not> fileExists disk (joinPath [baseDir, trim lvl, rel] @ x)"
  then show f: "findTestFile disk (joinPath [baseDir, trim lvl, rel]) commonExtensions = []"
    by (rule findTestFile_none)
  show "levelTestFile disk baseDir rel lvl = joinPath [baseDir, trim lvl, rel] @ ''.*''"
    by (simp add: levelTestFile_def resolveTestFile_def Let_def f)
next
  show "joinPath [baseDirOf ''a/specguard/b.md'' ''specguard'', trim ''unit'',
                relPathNoExtOf ''a/specguard/b.md'' ''specguard''] = ''a/unit/b''"
    by (rule specguard_example_base)
qed

theorem C6_path_resolution_witness:
  "levelTestFile featureDisk ''proj'' ''feature'' ''e2e'' = ''proj/e2e/feature.sh''
   \<and> levelTestFile featureDisk ''proj'' ''feature'' ''perf'' = ''proj/perf/feature.*''
   \<and> findTestFile featureDisk ''proj/perf/feature'' commonExtensions = []"
proof -
  note e2e = C6_path_resolution[where disk = featureDisk and baseDir = "''proj''"
      and rel = "''feature''" and lvl = "''e2e''"
      and pre = "[''.ts'', ''.test.ts'', ''.spec.ts'', ''.js'', ''.test.js'', ''.spec.js'']"
      and e = "''.sh''" and post = "[''.py'']"]
  note perf = C6_path_resolution[where disk = featureDisk and baseDir = "''proj''"
      and rel = "''feature''" and lvl = "''perf''" and pre = "[]" and e = "[]" and post = "[]"]
  have pre1: "commonExtensions =
        [''.ts'', ''.test.ts'', ''.spec.ts'', ''.js'', ''.test.js'', ''.spec.js''] @ ''.sh'' # [''.py'']
      \<and> (\<forall>x \<in> set [''.ts'', ''.test.ts'', ''.spec.ts'', ''.js'', ''.test.js'', ''.spec.js''].
            \<not> fileExists featureDisk (joinPath [''proj'', trim ''e2e'', ''feature''] @ x))
      \<and> fileExists featureDisk (joinPath [''proj'', trim ''e2e'', ''feature''] @ ''.sh'')"
    by (simp add: commonExtensions_def feature_trims feature_paths featureDisk_exists)
  have a: "levelTestFile featureDisk ''proj'' ''feature'' ''e2e'' = ''proj/e2e/feature.sh''"
    using mp[OF conjunct1[OF e2e] pre1] by (simp add: feature_trims feature_paths)
  have pre2: "\<forall>x \<in> set commonExtensions.
      \<not> fileExists featureDisk (joinPath [''proj'', trim ''perf'', ''feature''] @ x)"
    by (simp add: commonExtensions_def feature_trims feature_paths featureDisk_perf)
  have b: "levelTestFile featureDisk ''proj'' ''feature'' ''perf'' = ''proj/perf/feature.*''
      \<and> findTestFile featureDisk ''proj/perf/feature'' commonExtensions = []"
    using mp[OF conjunct1[OF conjunct2[OF perf]] pre2] by (simp add: feature_trims feature_paths)
  show ?thesis using a b by simp
qed

section \<open>Properties of the scenario parser\<close>

subsection \<open>The example spec files\<close>

lemma duplicateLevelsSpec_lines:
  "split_on CHR 0x0A duplicateLevelsSpec =
     [''## Login'', ''levels: unit, unit'', ''```specguard'', ''Validate input'', ''```'']"
  by (simp add: duplicateLevelsSpec_def)

lemma duplicateLevelsSpec_scenarios:
  "extractScenarios duplicateLevelsSpec =
     [\<lparr>name = ''Login'', levels = [''unit'', ''unit''], steps = [''Validate input'']\<rparr>]"
  unfolding extractScenarios_def duplicateLevelsSpec_lines
  by (simp add: parserDefs trim_def charClasses)

lemma dropSpec_lines:
  "split_on CHR 0x0A dropSpec =
     [''## Draft'', ''levels: unit'', ''## Ready'', ''levels: unit'', ''```specguard'',
      ''Do it'', ''```'']"
  by (simp add: dropSpec_def)

lemma dropSpec_scenarios:
  "extractScenarios dropSpec =
     [\<lparr>name = ''Ready'', levels = [''unit''], steps = [''Do it'']\<rparr>]"
  unfolding extractScenarios_def dropSpec_lines
  by (simp add: parserDefs trim_def charClasses)

lemma dropSpec_opened:
  "openedScenarios dropSpec =
     [\<lparr>name = ''Draft'', levels = [''unit''], steps = []\<rparr>,
      \<lparr>name = ''Ready'', levels = [''unit''], steps = [''Do it'']\<rparr>]"
  unfolding openedScenarios_def dropSpec_lines
  by (simp add: trackLine_def closeAny_def parserDefs trim_def charClasses)

subsection \<open>The levels line\<close>

lemma levels_line_no_heading: "prefix ''levels:'' line \<Longrightarrow> h2Match line = None"
  by (cases line) (auto simp: h2Match_def)

lemma parseLevels_trimmed: "list_all (\<lambda>l. l \<noteq> [] \<and> trim l = l) (parseLevels g)"
  by (auto simp: parseLevels_def Let_def list_all_iff trim_idem)

lemma saveScenario_trimmed: "stateTrimmed st \<Longrightarrow> list_all levelsTrimmed (saveScenario st)"
  by (auto simp: stateTrimmed_def saveScenario_def levelsTrimmed_def split: option.splits)

lemma parseLine_trimmed:
  assumes "stateTrimmed st"
  shows "stateTrimmed (parseLine st line)"
proof (cases "h2Match line")
  case (Some g)
  then show ?thesis
    using saveScenario_trimmed[OF assms]
    by (simp add: parseLine_def stateTrimmed_def levelsTrimmed_def)
next
  case None
  show ?thesis
  proof (cases "currentScenario st")
    case noScenario: None
    then show ?thesis
      using assms None by (simp add: parseLine_def stateTrimmed_def)
  next
    case (Some sc)
    show ?thesis
    proof (cases "levelsMatch line")
      case noLevels: None
      then show ?thesis
        using assms None Some by (simp add: parseLine_def stateTrimmed_def)
    next
      case withLevels: (Some g)
      then show ?thesis
        using assms None Some parseLevels_trimmed[of g]
        by (simp add: parseLine_def stateTrimmed_def levelsTrimmed_def)
    qed
  qed
qed

lemma parseLines_trimmed:
  "stateTrimmed st \<Longrightarrow> stateTrimmed (foldl parseLine st ls)"
  by (induction ls arbitrary: st) (simp_all add: parseLine_trimmed)

lemma extractScenarios_trimmed: "list_all levelsTrimmed (extractScenarios content)"
proof -
  have "stateTrimmed initialState"
    by (simp add: stateTrimmed_def initialState_def)
  then have "stateTrimmed (foldl parseLine initialState (split_on CHR 0x0A content))"
    by (rule parseLines_trimmed)
  then show ?thesis
    unfolding extractScenarios_def by (rule saveScenario_trimmed)
qed

text \<open>
  Claim C7, as the code has it. While a scenario is open, a line that starts with
  \<^verbatim>\<open>levels:\<close> sets the scenario's levels to the value list split on commas, each
  entry trimmed, the empty entries dropped, in order. The parser does not remove
  duplicates from the list it stores; every stored entry is trimmed and not empty.
  Duplicates are dropped where the orchestrator collects the levels of a file: the
  collected levels are distinct and are exactly the levels of the file's scenarios.
\<close>

theorem C7_levels_line:
  "(currentScenario st = Some sc \<and> prefix ''levels:'' line
     \<longrightarrow> parseLine st line =
         st\<lparr>currentScenario :=
              Some (sc\<lparr>levels :=
                filter (\<lambda>l. l \<noteq> [])
                  (map trim (split_on CHR '',''
                     (trim (takeWhile isDot (dropWhile isSpace (drop 7 line))))))\<rparr>)\<rparr>)
   \<and> (\<forall>s \<in> set (extractScenarios content). \<forall>l \<in> set (levels s). l \<noteq> [] \<and> trim l = l)
   \<and> distinct (collectLevels (extractScenarios content))
   \<and> set (collectLevels (extractScenarios content)) =
       (\<Union>s \<in> set (extractScenarios content). set (levels s))"
proof (intro conjI impI)
  assume h: "currentScenario st = Some sc \<and> prefix ''levels:'' line"
  then have "h2Match line = None" by (simp add: levels_line_no_heading)
  then show "parseLine st line =
         st\<lparr>currentScenario :=
              Some (sc\<lparr>levels :=
                filter (\<lambda>l. l \<noteq> [])
                  (map trim (split_on CHR '',''
                     (trim (takeWhile isDot (dropWhile isSpace (drop 7 line))))))\<rparr>)\<rparr>"
    using h by (simp add: parseLine_def levelsMatch_def parseLevels_def)
next
  show tr: "\<forall>s \<in> set (extractScenarios content). \<forall>l \<in> set (levels s). l \<noteq> [] \<and> trim l = l"
    using extractScenarios_trimmed[of content]
    by (simp add: list_all_iff levelsTrimmed_def)
  show "distinct (collectLevels (extractScenarios content))"
    by (rule collectLevels_distinct)
  have "trim ` set (levels s) = set (levels s)" if "s \<in> set (extractScenarios content)" for s
  proof -
    have "\<forall>l \<in> set (levels s). trim l = l" using tr that by blast
    then show ?thesis by force
  qed
  then show "set (collectLevels (extractScenarios content)) =
       (\<Union>s \<in> set (extractScenarios content). set (levels s))"
    by (simp add: collectLevels_set)
qed

theorem C7_levels_line_witness:
  "parseLine
     \<lparr>scenarios = [], currentScenario = Some \<lparr>name = ''Login'', levels = [], steps = []\<rparr>,
      inCodeblock = False, currentSteps = []\<rparr> ''levels: unit, ,e2e , unit''
   = \<lparr>scenarios = [],
      currentScenario = Some \<lparr>name = ''Login'', levels = [''unit'', ''e2e'', ''unit''], steps = []\<rparr>,
      inCodeblock = False, currentSteps = []\<rparr>
   \<and> collectLevels (extractScenarios duplicateLevelsSpec) = [''unit'']"
proof -
  let ?sc = "\<lparr>name = ''Login'', levels = [], steps = []\<rparr>"
  let ?st = "\<lparr>scenarios = [], currentScenario = Some ?sc, inCodeblock = False,
              currentSteps = []\<rparr>"
  note inst = C7_levels_line[where st = ?st and sc = ?sc
      and line = "''levels: unit, ,e2e , unit''" and content = duplicateLevelsSpec]
  have pre: "currentScenario ?st = Some ?sc \<and> prefix ''levels:'' ''levels: unit, ,e2e , unit''"
    by simp
  have a: "parseLine ?st ''levels: unit, ,e2e , unit'' =
      \<lparr>scenarios = [],
       currentScenario = Some \<lparr>name = ''Login'', levels = [''unit'', ''e2e'', ''unit''], steps = []\<rparr>,
       inCodeblock = False, currentSteps = []\<rparr>"
    using mp[OF conjunct1[OF inst] pre] by (simp add: trim_def charClasses)
  have d: "distinct (collectLevels (extractScenarios duplicateLevelsSpec))"
    using inst by (elim conjE)
  have s: "set (collectLevels (extractScenarios duplicateLevelsSpec)) = {''unit''}"
    using conjunct2[OF conjunct2[OF conjunct2[OF inst]]]
    by (simp add: duplicateLevelsSpec_scenarios)
  have b: "collectLevels (extractScenarios duplicateLevelsSpec) = [''unit'']"
  proof (cases "collectLevels (extractScenarios duplicateLevelsSpec)")
    case Nil
    then show ?thesis using s by simp
  next
    case (Cons x xs)
    then have x: "x = ''unit''" using s by auto
    have "set xs \<subseteq> {''unit''}" using s Cons by auto
    moreover have "x \<notin> set xs" using d Cons by simp
    ultimately have "xs = []" using x by (cases xs) auto
    then show ?thesis using Cons x by simp
  qed
  show ?thesis using a b by (rule conjI)
qed

text \<open>
  Claim C7 as first stated has the parser remove duplicates, so that no stored level
  list repeats an entry. The spec file that names the level unit twice is stored with
  both entries.
\<close>

theorem C7_stored_levels_counterexample:
  "levels (hd (extractScenarios duplicateLevelsSpec)) = [''unit'', ''unit'']
   \<and> \<not> distinct (levels (hd (extractScenarios duplicateLevelsSpec)))"
  by (simp add: duplicateLevelsSpec_scenarios)

subsection \<open>Scenarios without steps\<close>

lemma draftSpec_scenarios: "extractScenarios draftSpec = []"
  by (simp add: extractScenarios_def draftSpec_def parserDefs trim_def charClasses)

lemma parseLine_no_heading:
  "h2Match line = None \<Longrightarrow> scenarios (parseLine st line) = scenarios st"
  by (simp add: parseLine_def split: option.splits prod.splits)

lemma parseLine_heading:
  "h2Match line = Some g \<Longrightarrow> scenarios (parseLine st line) = saveScenario st"
  by (simp add: parseLine_def)

lemma saveScenario_closeAny:
  assumes "scenarios st = filter (\<lambda>sc. steps sc \<noteq> []) opened"
  shows "saveScenario st = filter (\<lambda>sc. steps sc \<noteq> []) (closeAny opened st)"
  using assms by (simp add: saveScenario_def closeAny_def split: option.splits)

lemma trackLine_state: "snd (trackLine tracked line) = parseLine (snd tracked) line"
  by (simp add: trackLine_def)

lemma trackLine_filter:
  assumes "scenarios (snd tracked) = filter (\<lambda>sc. steps sc \<noteq> []) (fst tracked)"
  shows "scenarios (snd (trackLine tracked line))
       = filter (\<lambda>sc. steps sc \<noteq> []) (fst (trackLine tracked line))"
proof (cases "h2Match line")
  case None
  then show ?thesis
    using assms by (simp add: trackLine_def parseLine_no_heading)
next
  case (Some g)
  then show ?thesis
    using saveScenario_closeAny[OF assms] by (simp add: trackLine_def parseLine_heading)
qed

lemma trackLines_state:
  "snd (foldl trackLine tracked ls) = foldl parseLine (snd tracked) ls"
  by (induction ls arbitrary: tracked) (simp_all add: trackLine_state)

lemma trackLines_filter:
  "scenarios (snd tracked) = filter (\<lambda>sc. steps sc \<noteq> []) (fst tracked) \<Longrightarrow>
   scenarios (snd (foldl trackLine tracked ls))
     = filter (\<lambda>sc. steps sc \<noteq> []) (fst (foldl trackLine tracked ls))"
  by (induction ls arbitrary: tracked) (simp_all add: trackLine_filter)

lemma extractScenarios_opened:
  "extractScenarios content = filter (\<lambda>sc. steps sc \<noteq> []) (openedScenarios content)"
proof -
  define tracked where "tracked = foldl trackLine ([], initialState) (split_on CHR 0x0A content)"
  have "scenarios (snd ([], initialState)) = filter (\<lambda>sc. steps sc \<noteq> []) (fst ([], initialState))"
    by (simp add: initialState_def)
  then have inv: "scenarios (snd tracked) = filter (\<lambda>sc. steps sc \<noteq> []) (fst tracked)"
    unfolding tracked_def by (rule trackLines_filter)
  have st: "snd tracked = foldl parseLine initialState (split_on CHR 0x0A content)"
    by (simp add: tracked_def trackLines_state)
  have "extractScenarios content = saveScenario (snd tracked)"
    by (simp add: extractScenarios_def st)
  also have "\<dots> = filter (\<lambda>sc. steps sc \<noteq> []) (closeAny (fst tracked) (snd tracked))"
    using inv by (rule saveScenario_closeAny)
  also have "\<dots> = filter (\<lambda>sc. steps sc \<noteq> []) (openedScenarios content)"
    by (simp add: openedScenarios_def tracked_def Let_def)
  finally show ?thesis .
qed

lemma processSpecguardFile_warnings:
  assumes "disk spec = Some content"
  shows "\<exists>results. processSpecguardFile disk spec baseDir folder =
           Inr ((if extractScenarios content = [] then [NoScenariosDefined spec] else []), results)"
  using assms by (simp add: processSpecguardFile_def Let_def)

text \<open>
  Claim C8, as the code has it. For every parsed spec file the parser's output is
  exactly the scenarios it opened that have at least one step, in order: a scenario
  whose step list is empty (also one with a levels line but no step block) is never in
  the output, and every scenario with steps is pushed, the one still open at the end of
  the input included. The parser reports nothing about a scenario it drops; the caller
  logs one warning for the file, and only when the file yields no scenario at all.
\<close>

theorem C8_scenarios_without_steps:
  "extractScenarios content = filter (\<lambda>sc. steps sc \<noteq> []) (openedScenarios content)
   \<and> (disk spec = Some content \<longrightarrow>
        (\<exists>results. processSpecguardFile disk spec baseDir folder =
           Inr ((if extractScenarios content = [] then [NoScenariosDefined spec] else []),
                results)))"
  using extractScenarios_opened processSpecguardFile_warnings by blast

theorem C8_scenarios_without_steps_witness:
  "extractScenarios draftSpec = []
   \<and> processSpecguardFile dropDisk ''proj/specguard/draft.md'' ''proj'' ''specguard''
       = Inr ([NoScenariosDefined ''proj/specguard/draft.md''], [])"
proof -
  note inst = C8_scenarios_without_steps[where content = draftSpec and disk = dropDisk
      and spec = "''proj/specguard/draft.md''" and baseDir = "''proj''"
      and folder = "''specguard''"]
  have content: "dropDisk ''proj/specguard/draft.md'' = Some draftSpec"
    by (simp add: dropDisk_def)
  obtain results where out:
    "processSpecguardFile dropDisk ''proj/specguard/draft.md'' ''proj'' ''specguard'' =
       Inr ((if extractScenarios draftSpec = [] then [NoScenariosDefined ''proj/specguard/draft.md'']
             else []), results)"
    using mp[OF conjunct2[OF inst] content] by (elim exE)
  have "results = []"
    using out by (simp add: processSpecguardFile_def content draftSpec_scenarios)
  then show ?thesis
    using out by (simp add: draftSpec_scenarios)
qed

text \<open>
  Claim C8 as first stated has every scenario without steps discarded with a warning
  that the caller sees. The spec file with a scenario without steps before one with a
  step opens both, returns the second only, and the caller logs no warning.
\<close>

theorem C8_dropped_without_warning_counterexample:
  "openedScenarios dropSpec =
     [\<lparr>name = ''Draft'', levels = [''unit''], steps = []\<rparr>,
      \<lparr>name = ''Ready'', levels = [''unit''], steps = [''Do it'']\<rparr>]
   \<and> extractScenarios dropSpec = [\<lparr>name = ''Ready'', levels = [''unit''], steps = [''Do it'']\<rparr>]
   \<and> fst (projr (processSpecguardFile dropDisk ''proj/specguard/drop.md'' ''proj'' ''specguard''))
       = []"
proof -
  have content: "dropDisk ''proj/specguard/drop.md'' = Some dropSpec"
    by (simp add: dropDisk_def)
  have "fst (projr (processSpecguardFile dropDisk ''proj/specguard/drop.md'' ''proj'' ''specguard''))
       = []"
    by (simp add: processSpecguardFile_def content dropSpec_scenarios Let_def)
  then show ?thesis
    by (simp add: dropSpec_opened dropSpec_scenarios)
qed

section \<open>Properties of the per-scenario breakdown\<close>

subsection \<open>The check of one scenario\<close>

lemma all_from_split:
  assumes "i < n"
  shows "(\<forall>j. i \<le> j \<and> j < n \<longrightarrow> P j) = (P i \<and> (\<forall>j. Suc i \<le> j \<and> j < n \<longrightarrow> P j))"
proof (intro iffI conjI allI impI)
  assume a: "\<forall>j. i \<le> j \<and> j < n \<longrightarrow> P j"
  show "P i" using a assms by simp
  fix j assume "Suc i \<le> j \<and> j < n"
  then have "i \<le> j \<and> j < n" by simp
  then show "P j" using a by blast
next
  fix j assume b: "P i \<and> (\<forall>j. Suc i \<le> j \<and> j < n \<longrightarrow> P j)" and c: "i \<le> j \<and> j < n"
  show "P j"
  proof (cases "j = i")
    case True
    then show ?thesis using b by simp
  next
    case False
    then have "Suc i \<le> j \<and> j < n" using c by linarith
    then show ?thesis using b by blast
  qed
qed

lemma ex_from_split:
  assumes "i < n"
  shows "(\<exists>j. i \<le> j \<and> j < n \<and> Q j) = (Q i \<or> (\<exists>j. Suc i \<le> j \<and> j < n \<and> Q j))"
  using all_from_split[OF assms, of "\<lambda>j. \<not> Q j"] by blast

lemma scenarioCheckLoop_passed:
  "passed (scenarioCheckLoop es acts i sv) =
     (passed sv \<and> (\<forall>j. i \<le> j \<and> j < length es \<longrightarrow>
                      map_option trim (jsIndex es j) = map_option trim (jsIndex acts j)))"
proof (induction es acts i sv rule: scenarioCheckLoop.induct)
  case (1 es acts i sv)
  show ?case
  proof (cases "i < length es")
    case False
    then have none: "\<not> (i \<le> j \<and> j < length es)" for j by linarith
    show ?thesis using False by (subst scenarioCheckLoop.simps) (simp add: none)
  next
    case True
    have split: "(\<forall>j. i \<le> j \<and> j < length es \<longrightarrow>
                      map_option trim (jsIndex es j) = map_option trim (jsIndex acts j))
        = (map_option trim (jsIndex es i) = map_option trim (jsIndex acts i)
           \<and> (\<forall>j. Suc i \<le> j \<and> j < length es \<longrightarrow>
                      map_option trim (jsIndex es j) = map_option trim (jsIndex acts j)))"
      using True by (rule all_from_split)
    show ?thesis
    proof (cases "map_option trim (jsIndex es i) = map_option trim (jsIndex acts i)")
      case same: True
      show ?thesis
        using True same "1.IH"[OF True refl refl]
        by (subst scenarioCheckLoop.simps) (simp add: split Let_def)
    next
      case differ: False
      show ?thesis
        using True differ "1.IH"[OF True refl refl]
        by (subst scenarioCheckLoop.simps) (simp add: split Let_def)
    qed
  qed
qed

lemma scenarioCheckLoop_reason_short:
  "i < length es \<Longrightarrow> length acts < length es \<Longrightarrow>
   reason (scenarioCheckLoop es acts i sv) = Some StepCountMismatch"
proof (induction es acts i sv rule: scenarioCheckLoop.induct)
  case (1 es acts i sv)
  show ?case
  proof (cases "Suc i < length es")
    case True
    show ?thesis
      using "1.prems" "1.IH"[OF "1.prems"(1) refl refl True "1.prems"(2)]
      by (subst scenarioCheckLoop.simps) (simp add: Let_def)
  next
    case False
    then have last: "Suc i = length es" using "1.prems"(1) by simp
    then have out: "jsIndex acts i = None" using "1.prems"(2) by (simp add: jsIndex_def)
    have inside: "jsIndex es i = Some (es ! i)" using "1.prems"(1) by (simp add: jsIndex_def)
    have stop: "scenarioCheckLoop es acts (Suc i) sv' = sv'" for sv'
      using last by (subst scenarioCheckLoop.simps) simp
    show ?thesis
      using "1.prems"(1)
      by (subst scenarioCheckLoop.simps) (simp add: Let_def out inside stop)
  qed
qed

lemma scenarioCheckLoop_reason_full:
  assumes "\<forall>a \<in> set acts. trim a \<noteq> []" and "length acts = length es"
  shows "reason (scenarioCheckLoop es acts i sv) =
     (if \<exists>j. i \<le> j \<and> j < length es \<and> trim (es ! j) \<noteq> trim (acts ! j)
      then Some StepMismatch else reason sv)"
  using assms
proof (induction es acts i sv rule: scenarioCheckLoop.induct)
  case (1 es acts i sv)
  show ?case
  proof (cases "i < length es")
    case False
    then have "\<not> (i \<le> j \<and> j < length es \<and> trim (es ! j) \<noteq> trim (acts ! j))" for j
      by linarith
    then have none: "\<not> (\<exists>j. i \<le> j \<and> j < length es \<and> trim (es ! j) \<noteq> trim (acts ! j))"
      by blast
    show ?thesis
      using False by (subst scenarioCheckLoop.simps) (simp only: none if_False)
  next
    case True
    then have ia: "i < length acts" using "1.prems"(2) by simp
    then have "acts ! i \<in> set acts" by simp
    then have nb: "trim (acts ! i) \<noteq> []" using "1.prems"(1) by blast
    have split: "(\<exists>j. i \<le> j \<and> j < length es \<and> trim (es ! j) \<noteq> trim (acts ! j))
        = (trim (es ! i) \<noteq> trim (acts ! i)
           \<or> (\<exists>j. Suc i \<le> j \<and> j < length es \<and> trim (es ! j) \<noteq> trim (acts ! j)))"
      using True by (rule ex_from_split)
    define sv' where "sv' =
      (if map_option trim (jsIndex es i) \<noteq> map_option trim (jsIndex acts i)
       then sv\<lparr>passed := False,
               reason := Some (if truthy (map_option trim (jsIndex acts i))
                               then StepMismatch else StepCountMismatch)\<rparr>
       else sv)"
    have unfold: "scenarioCheckLoop es acts i sv = scenarioCheckLoop es acts (Suc i) sv'"
      using True by (subst scenarioCheckLoop.simps) (simp add: Let_def sv'_def)
    have ih: "reason (scenarioCheckLoop es acts (Suc i) sv') =
        (if \<exists>j. Suc i \<le> j \<and> j < length es \<and> trim (es ! j) \<noteq> trim (acts ! j)
         then Some StepMismatch else reason sv')"
      unfolding sv'_def by (rule "1.IH"[OF True refl refl "1.prems"])
    have r': "reason sv' =
        (if trim (es ! i) \<noteq> trim (acts ! i) then Some StepMismatch else reason sv)"
      using True ia nb by (simp add: sv'_def jsIndex_def)
    show ?thesis
    proof (cases "\<exists>j. Suc i \<le> j \<and> j < length es \<and> trim (es ! j) \<noteq> trim (acts ! j)")
      case later: True
      show ?thesis
        by (simp only: unfold ih split later if_True simp_thms)
    next
      case noLater: False
      show ?thesis
        by (simp only: unfold ih r' split noLater if_False simp_thms)
    qed
  qed
qed

lemma scenarioVerification_present:
  assumes "reason V \<noteq> Some MissingFile"
  shows "scenarioVerification V es acts =
     scenarioCheckLoop es acts 0
       \<lparr>passed = True, reason = None, expectedSteps = es, actualSteps = acts,
        missingSteps = None, extraSteps = None, mismatchedSteps = None\<rparr>"
  using assms by (simp add: scenarioVerification_def Let_def)

lemma scenarioVerification_missing:
  assumes "reason V = Some MissingFile"
  shows "\<not> passed (scenarioVerification V es acts)
       \<and> reason (scenarioVerification V es acts) = Some MissingFile"
  using assms by (simp add: scenarioVerification_def Let_def)

lemma compareSteps_passed:
  "passed (compareSteps es acts) =
     (length es = length acts \<and> (\<forall>j<length es. trim (es ! j) = trim (acts ! j)))"
proof (cases "length es = length acts")
  case True
  then show ?thesis
    by (simp add: compareSteps_equal_length mismatchesOf_empty)
next
  case False
  then show ?thesis
    by (simp add: compareSteps_unequal_length)
qed

lemma scenarioVerification_passed:
  assumes "reason V \<noteq> Some MissingFile" and "length acts \<le> length es"
  shows "passed (scenarioVerification V es acts) = passed (compareSteps es acts)"
proof (cases "length acts = length es")
  case True
  have "(\<forall>j. j < length es \<longrightarrow>
            map_option trim (jsIndex es j) = map_option trim (jsIndex acts j))
      = (\<forall>j<length es. trim (es ! j) = trim (acts ! j))"
    using True by (auto simp: jsIndex_def)
  then show ?thesis
    using True
    by (simp add: scenarioVerification_present[OF assms(1)] scenarioCheckLoop_passed
        compareSteps_passed)
next
  case False
  then have lt: "length acts < length es" using assms(2) by simp
  then have "map_option trim (jsIndex es (length acts))
      \<noteq> map_option trim (jsIndex acts (length acts))"
    by (simp add: jsIndex_def)
  then have "\<not> (\<forall>j. j < length es \<longrightarrow>
            map_option trim (jsIndex es j) = map_option trim (jsIndex acts j))"
    using lt by blast
  then show ?thesis
    using False
    by (simp add: scenarioVerification_present[OF assms(1)] scenarioCheckLoop_passed
        compareSteps_passed)
qed

lemma scenarioVerification_reason:
  assumes "reason V \<noteq> Some MissingFile" and "length acts \<le> length es"
    and "\<forall>a \<in> set acts. trim a \<noteq> []"
  shows "reason (scenarioVerification V es acts) = reason (compareSteps es acts)"
proof (cases "length acts = length es")
  case True
  have "(\<exists>j. 0 \<le> j \<and> j < length es \<and> trim (es ! j) \<noteq> trim (acts ! j))
      = (mismatchesOf es acts \<noteq> [])"
    by (auto simp: mismatchesOf_empty)
  then show ?thesis
    using True
    by (simp add: scenarioVerification_present[OF assms(1)]
        scenarioCheckLoop_reason_full[OF assms(3) True] compareSteps_equal_length)
next
  case False
  then have lt: "length acts < length es" using assms(2) by simp
  then have pos: "0 < length es" by linarith
  show ?thesis
    using False
    by (simp add: scenarioVerification_present[OF assms(1)]
        scenarioCheckLoop_reason_short[OF pos lt] compareSteps_unequal_length)
qed

lemma slice_length: "length (slice xs off (off + n)) \<le> n"
  by (simp add: slice_def)

subsection \<open>The running offset\<close>

lemma scenarioResultsLoop_eq:
  "scenarioResultsLoop scs l V off acc =
     acc @ map (\<lambda>(sc, off').
                 \<lparr>scenarioName = name sc,
                  stepVerification =
                    scenarioVerification V (steps sc)
                      (slice (actualSteps V) off' (off' + length (steps sc)))\<rparr>)
             (zip (filter (\<lambda>s. l \<in> set (levels s)) scs)
                  (runningOffsets off (filter (\<lambda>s. l \<in> set (levels s)) scs)))"
  by (induction scs arbitrary: off acc) (simp_all add: Let_def)

text \<open>
  How far the breakdown and \<^verbatim>\<open>verifySteps\<close> agree. The breakdown of a level lists,
  for each scenario that contributes to the level, in order, the check of the
  scenario's steps against the slice of the actual flat steps from a running offset,
  which starts at 0 and advances by the step count of each contributing scenario, to
  that offset plus the scenario's step count. When the file exists, the passed flag of
  the check is the one \<^verbatim>\<open>verifySteps\<close> gives for the same expected steps on a file
  whose steps are the slice, and so is the reason when no step of the slice is blank
  after trimming. When the file is missing, every check fails with the reason
  missing-file.
\<close>

lemma scenarioBreakdown_agreement:
  "scenarioResults (processLevel disk spec baseDir rel scs lvl) =
     map (\<lambda>(sc, off').
            \<lparr>scenarioName = name sc,
             stepVerification =
               scenarioVerification (levelVerification disk baseDir rel scs lvl) (steps sc)
                 (slice (actualSteps (levelVerification disk baseDir rel scs lvl))
                    off' (off' + length (steps sc)))\<rparr>)
       (zip (filter (\<lambda>s. trim lvl \<in> set (levels s)) scs)
            (runningOffsets 0 (filter (\<lambda>s. trim lvl \<in> set (levels s)) scs)))
   \<and> (reason V \<noteq> Some MissingFile \<and> fileExists d f
        \<and> findStepsInTest d f = slice acts off (off + length es)
      \<longrightarrow> passed (scenarioVerification V es (slice acts off (off + length es)))
            = passed (verifySteps d f es)
          \<and> ((\<forall>a \<in> set (slice acts off (off + length es)). trim a \<noteq> [])
              \<longrightarrow> reason (scenarioVerification V es (slice acts off (off + length es)))
                    = reason (verifySteps d f es)))
   \<and> (reason V = Some MissingFile
      \<longrightarrow> \<not> passed (scenarioVerification V es sl)
          \<and> reason (scenarioVerification V es sl) = Some MissingFile)"
proof (intro conjI impI)
  show "scenarioResults (processLevel disk spec baseDir rel scs lvl) =
     map (\<lambda>(sc, off').
            \<lparr>scenarioName = name sc,
             stepVerification =
               scenarioVerification (levelVerification disk baseDir rel scs lvl) (steps sc)
                 (slice (actualSteps (levelVerification disk baseDir rel scs lvl))
                    off' (off' + length (steps sc)))\<rparr>)
       (zip (filter (\<lambda>s. trim lvl \<in> set (levels s)) scs)
            (runningOffsets 0 (filter (\<lambda>s. trim lvl \<in> set (levels s)) scs)))"
    by (simp add: processLevel_fields scenarioResultsLoop_eq)
next
  assume h: "reason V \<noteq> Some MissingFile \<and> fileExists d f
        \<and> findStepsInTest d f = slice acts off (off + length es)"
  from h have present: "reason V \<noteq> Some MissingFile" by (rule conjunct1)
  from h have v: "verifySteps d f es = compareSteps es (slice acts off (off + length es))"
    by (simp add: verifySteps_def)
  show "passed (scenarioVerification V es (slice acts off (off + length es)))
            = passed (verifySteps d f es)"
    unfolding v by (rule scenarioVerification_passed[OF present slice_length])
  assume "\<forall>a \<in> set (slice acts off (off + length es)). trim a \<noteq> []"
  then show "reason (scenarioVerification V es (slice acts off (off + length es)))
                    = reason (verifySteps d f es)"
    unfolding v by (rule scenarioVerification_reason[OF present slice_length])
next
  assume m: "reason V = Some MissingFile"
  show "\<not> passed (scenarioVerification V es sl)"
    using scenarioVerification_missing[OF m] by (rule conjunct1)
  show "reason (scenarioVerification V es sl) = Some MissingFile"
    using scenarioVerification_missing[OF m] by (rule conjunct2)
qed

subsection \<open>The breakdown of the example project\<close>

lemma featureUnit_testFile:
  "levelTestFile featureDisk ''proj'' ''feature'' ''unit'' = ''proj/unit/feature.test.ts''"
  by (simp add: levelTestFile_def resolveTestFile_def commonExtensions_def feature_trims
      feature_paths featureDisk_exists Let_def)

lemma featureUnit_expected:
  "allStepsForLevel featureScenarios ''unit'' = [''Step one'', ''Step two'']"
  by (simp add: allStepsForLevel_def featureScenarios_def)

lemma featureUnit_verification:
  "levelVerification featureDisk ''proj'' ''feature'' featureScenarios ''unit'' =
     compareSteps [''Step one'', ''Step two''] [''Step one'', '' '']"
  by (simp add: levelVerification_def featureUnit_testFile verifySteps_def featureDisk_exists
      featureUnit_steps featureUnit_expected feature_trims)

lemma featureUnit_mismatches:
  "mismatchesOf [''Step one'', ''Step two''] [''Step one'', '' ''] =
     [\<lparr>expected = ''Step two'', actual = [], index = 1\<rparr>]"
  by (simp add: mismatchesOf_def upt_rec feature_trims)

lemma featureUnit_compare:
  "compareSteps [''Step one'', ''Step two''] [''Step one'', '' ''] =
     \<lparr>passed = False, reason = Some StepMismatch,
      expectedSteps = [''Step one'', ''Step two''], actualSteps = [''Step one'', '' ''],
      missingSteps = None, extraSteps = None,
      mismatchedSteps = Some [\<lparr>expected = ''Step two'', actual = [], index = 1\<rparr>]\<rparr>"
  by (simp add: compareSteps_equal_length featureUnit_mismatches)

lemma featureUnit_breakdown:
  "scenarioCheckLoop [''Step one'', ''Step two''] [''Step one'', '' ''] 0
     \<lparr>passed = True, reason = None,
      expectedSteps = [''Step one'', ''Step two''], actualSteps = [''Step one'', '' ''],
      missingSteps = None, extraSteps = None, mismatchedSteps = None\<rparr>
   = \<lparr>passed = False, reason = Some StepCountMismatch,
      expectedSteps = [''Step one'', ''Step two''], actualSteps = [''Step one'', '' ''],
      missingSteps = None, extraSteps = None, mismatchedSteps = None\<rparr>"
  by (simp add: scenarioCheckLoop.simps jsIndex_def feature_trims Let_def)

text \<open>
  Claim C5. The per-scenario breakdown gives the classification, passed and reason, that
  \<^verbatim>\<open>verifySteps\<close> gives for the same expected steps and the same slice of the actual
  steps. The code misses this where an actual step is blank after trimming: its test
  \<^verbatim>\<open>actual ? 'step-mismatch' : 'step-count-mismatch'\<close> takes the blank step for an
  absent one. In the example project the unit level has one scenario of two steps, and
  the file has two markers, so the slice is the whole list of the file's steps; the
  second marker is one space. \<^verbatim>\<open>verifySteps\<close> reports step-mismatch, the
  breakdown reports step-count-mismatch for the same two lists.
\<close>

theorem C5_blank_step_divergence:
  "reason (stepVerification (hd (scenarioResults
      (processLevel featureDisk ''proj/specguard/feature.md'' ''proj'' ''feature''
         featureScenarios ''unit'')))) = Some StepCountMismatch
   \<and> expectedSteps (stepVerification (hd (scenarioResults
      (processLevel featureDisk ''proj/specguard/feature.md'' ''proj'' ''feature''
         featureScenarios ''unit'')))) = [''Step one'', ''Step two'']
   \<and> actualSteps (stepVerification (hd (scenarioResults
      (processLevel featureDisk ''proj/specguard/feature.md'' ''proj'' ''feature''
         featureScenarios ''unit'')))) = findStepsInTest featureDisk ''proj/unit/feature.test.ts''
   \<and> reason (verifySteps featureDisk ''proj/unit/feature.test.ts'' [''Step one'', ''Step two''])
       = Some StepMismatch"
proof -
  have v: "verifySteps featureDisk ''proj/unit/feature.test.ts'' [''Step one'', ''Step two'']
      = compareSteps [''Step one'', ''Step two''] [''Step one'', '' '']"
    by (simp add: verifySteps_def featureDisk_exists featureUnit_steps)
  have lv: "levelVerification featureDisk ''proj'' ''feature'' featureScenarios ''unit'' =
     \<lparr>passed = False, reason = Some StepMismatch,
      expectedSteps = [''Step one'', ''Step two''], actualSteps = [''Step one'', '' ''],
      missingSteps = None, extraSteps = None,
      mismatchedSteps = Some [\<lparr>expected = ''Step two'', actual = [], index = 1\<rparr>]\<rparr>"
    by (simp only: featureUnit_verification featureUnit_compare)
  have r: "scenarioResults
      (processLevel featureDisk ''proj/specguard/feature.md'' ''proj'' ''feature''
         featureScenarios ''unit'')
    = [\<lparr>scenarioName = ''First'',
        stepVerification =
          \<lparr>passed = False, reason = Some StepCountMismatch,
           expectedSteps = [''Step one'', ''Step two''], actualSteps = [''Step one'', '' ''],
           missingSteps = None, extraSteps = None, mismatchedSteps = None\<rparr>\<rparr>]"
    unfolding processLevel_fields lv feature_trims
    by (simp add: featureScenarios_def Let_def slice_def scenarioVerification_def
        featureUnit_breakdown)
  show ?thesis
    by (simp add: r v featureUnit_compare featureUnit_steps)
qed

section \<open>Properties of the entry point\<close>

subsection \<open>The loop over the scan in closed form\<close>





subsection \<open>The same spec files in another order\<close>




subsection \<open>The tree with two spec files\<close>











subsection \<open>The literal folder name\<close>

lemma baseDirOf_literalFolder:
  "baseDirOf fullPath specguardFolderName
     = literalFolder specguardFolderName (dirname fullPath)"
  by (simp add: baseDirOf_def literalFolder_def)

end
